theory Spec2Isabelle
  imports Main "HOL-Library.Word"
begin

section \<open>Primary selection on the compositor side\<close>

text \<open>
  The two files \<^verbatim>\<open>src/primary-selection.c\<close> and \<^verbatim>\<open>unnamed/part_000\<close> are two
  versions of the same compositor module. Both are embedded; where a function has the
  same name in both, the one of \<^verbatim>\<open>part_000\<close> carries the suffix \<open>_part_000\<close>.

  Pointers are options (\<open>None\<close> is \<^verbatim>\<open>NULL\<close>); dereferencing \<^verbatim>\<open>NULL\<close> is the
  fault \<open>Null_dereference\<close>. A heap object that is only compared by address is
  represented by its address (a natural number).
\<close>

datatype fault = Null_dereference

type_synonym wl_client = nat

record wl_resource =
  res_id :: nat
  res_client :: wl_client

definition wl_resource_get_client :: "wl_resource \<Rightarrow> wl_client" where
  "wl_resource_get_client r = res_client r"

text \<open>
  \<^verbatim>\<open>wl_resource_find_for_client\<close> of libwayland walks a resource list and returns the
  first resource of the given client, or \<^verbatim>\<open>NULL\<close>.
\<close>

definition wl_resource_find_for_client :: "wl_resource list \<Rightarrow> wl_client \<Rightarrow> wl_resource option" where
  "wl_resource_find_for_client l c = find (\<lambda>r. wl_resource_get_client r = c) l"

text \<open>
  \<^verbatim>\<open>struct weston_data_source\<close>: its address, its protocol resource and the MIME
  types it advertises. Its \<^verbatim>\<open>cancel\<close> hook and its \<^verbatim>\<open>destroy_signal\<close> show in the
  actions below.
\<close>

record weston_data_source =
  source_addr :: nat
  resource :: wl_resource
  mime_types :: "string list"

record weston_pointer_client =
  client :: wl_client

record weston_surface =
  surface_resource :: wl_resource

record weston_view =
  view_surface :: "weston_surface option"

record weston_pointer =
  focus :: "weston_view option"
  focus_client :: "weston_pointer_client option"

datatype notify_fn = Destroy_primary_selection_data_source

text \<open>
  \<^verbatim>\<open>struct weston_seat\<close>, the fields the module touches. The seat owns one listener,
  \<^verbatim>\<open>primary_data_source_listener\<close>; \<open>primary_data_source_listener_link\<close> is the address
  of the source whose \<^verbatim>\<open>destroy_signal\<close> list holds the listener's link, \<open>None\<close> when
  the link is in no list.
\<close>

record weston_seat =
  primary_selection_data_source :: "weston_data_source option"
  primary_data_source_listener_notify :: "notify_fn option"
  primary_data_source_listener_link :: "nat option"
  primary_selection_device_resource_list :: "wl_resource list"
  pointer_state :: "weston_pointer option"

text \<open>
  What a function does to the outside, in the order it does it: calls through a source's
  hook, events sent to a client, operations on signal lists, and the assignment of the
  seat's current source.
\<close>

datatype action =
    Cancel nat
  | Send_selection_changed wl_resource
  | Wl_list_remove_listener
  | Set_current_source "nat option"
  | Wl_signal_add nat
  | Wl_signal_emit_primary_selection
  | Send_selection_offer wl_resource wl_resource
  | Send_offer wl_resource string

definition destroy_primary_selection_data_source :: "weston_seat \<Rightarrow> weston_seat \<times> action list" where
  "destroy_primary_selection_data_source seat =
     (seat\<lparr>primary_selection_data_source := None\<rparr>,
      [Set_current_source None, Wl_signal_emit_primary_selection])"

text \<open>\<^verbatim>\<open>weston_seat_set_primary_selection\<close> of \<^verbatim>\<open>src/primary-selection.c\<close>.\<close>

definition weston_seat_set_primary_selection ::
  "weston_seat \<Rightarrow> weston_data_source option \<Rightarrow> weston_seat \<times> action list" where
  "weston_seat_set_primary_selection seat source =
     (let current_source = primary_selection_data_source seat;
          (seat1, tr1) =
            (case current_source of
               None \<Rightarrow> (seat, [])
             | Some cs \<Rightarrow>
                 (seat\<lparr>primary_data_source_listener_link := None\<rparr>,
                  [Cancel (source_addr cs), Wl_list_remove_listener]));
          seat2 = seat1\<lparr>primary_selection_data_source := source\<rparr>;
          tr2 = tr1 @ [Set_current_source (map_option source_addr source)]
      in case source of
           None \<Rightarrow> (seat2, tr2)
         | Some s \<Rightarrow>
             (seat2\<lparr>primary_data_source_listener_notify :=
                       Some Destroy_primary_selection_data_source,
                     primary_data_source_listener_link := Some (source_addr s)\<rparr>,
              tr2 @ [Wl_signal_add (source_addr s)]))"

text \<open>
  \<^verbatim>\<open>weston_seat_set_primary_selection\<close> of \<^verbatim>\<open>unnamed/part_000\<close>. With a current
  source it reads \<^verbatim>\<open>source->resource\<close> before the test \<^verbatim>\<open>if (source)\<close>, and it
  sends \<^verbatim>\<open>selection_changed\<close> on the resource that \<^verbatim>\<open>wl_resource_find_for_client\<close>
  returned for the old owner without testing it.
\<close>

definition weston_seat_set_primary_selection_part_000 ::
  "weston_seat \<Rightarrow> weston_data_source option \<Rightarrow> fault + weston_seat \<times> action list" where
  "weston_seat_set_primary_selection_part_000 seat source =
     (let current_source = primary_selection_data_source seat;
          r1 =
            (case current_source of
               None \<Rightarrow> Inr (seat, [])
             | Some cs \<Rightarrow>
                 (let old_owner = wl_resource_get_client (resource cs);
                      res = wl_resource_find_for_client
                              (primary_selection_device_resource_list seat) old_owner;
                      tr0 = [Cancel (source_addr cs)]
                  in case source of
                       None \<Rightarrow> Inl Null_dereference
                     | Some s \<Rightarrow>
                         (if old_owner \<noteq> wl_resource_get_client (resource s) then
                            (case res of
                               None \<Rightarrow> Inl Null_dereference
                             | Some r \<Rightarrow>
                                 Inr (seat\<lparr>primary_data_source_listener_link := None\<rparr>,
                                      tr0 @ [Send_selection_changed r, Wl_list_remove_listener]))
                          else
                            Inr (seat\<lparr>primary_data_source_listener_link := None\<rparr>,
                                 tr0 @ [Wl_list_remove_listener]))))
      in case r1 of
           Inl e \<Rightarrow> Inl e
         | Inr (seat1, tr1) \<Rightarrow>
             (let seat2 = seat1\<lparr>primary_selection_data_source := source\<rparr>;
                  tr2 = tr1 @ [Set_current_source (map_option source_addr source)]
              in case source of
                   None \<Rightarrow> Inr (seat2, tr2)
                 | Some s \<Rightarrow>
                     Inr (seat2\<lparr>primary_data_source_listener_notify :=
                                  Some Destroy_primary_selection_data_source,
                                primary_data_source_listener_link := Some (source_addr s)\<rparr>,
                          tr2 @ [Wl_signal_add (source_addr s)])))"

text \<open>
  The request handler \<^verbatim>\<open>weston_primary_selection_device_set_selection\<close> of
  \<^verbatim>\<open>src/primary-selection.c\<close>. \<open>c\<close> is the requesting client, \<open>seat\<close> the user data
  of the device resource, \<open>source_resource\<close> the source behind the source resource
  (\<^verbatim>\<open>wl_resource_get_user_data\<close> of libwayland reads through its argument). The test
  reads \<^verbatim>\<open>seat->pointer_state->focus_client->client\<close> with no check of either
  pointer.
\<close>

definition weston_primary_selection_device_set_selection ::
  "wl_client \<Rightarrow> weston_seat \<Rightarrow> weston_data_source option \<Rightarrow> fault + weston_seat \<times> action list" where
  "weston_primary_selection_device_set_selection c seat source_resource =
     (case pointer_state seat of
        None \<Rightarrow> Inl Null_dereference
      | Some p \<Rightarrow>
          (case focus_client p of
             None \<Rightarrow> Inl Null_dereference
           | Some fc \<Rightarrow>
               if client fc \<noteq> c then Inr (seat, [])
               else (case source_resource of
                       None \<Rightarrow> Inl Null_dereference
                     | Some s \<Rightarrow> Inr (weston_seat_set_primary_selection seat (Some s)))))"

text \<open>The same handler in \<^verbatim>\<open>unnamed/part_000\<close>, where it is named \<^verbatim>\<open>..._selection_set\<close>.\<close>

definition weston_primary_selection_device_selection_set ::
  "wl_client \<Rightarrow> weston_seat \<Rightarrow> weston_data_source option \<Rightarrow> fault + weston_seat \<times> action list" where
  "weston_primary_selection_device_selection_set c seat source_resource =
     (case pointer_state seat of
        None \<Rightarrow> Inl Null_dereference
      | Some p \<Rightarrow>
          (case focus_client p of
             None \<Rightarrow> Inl Null_dereference
           | Some fc \<Rightarrow>
               if client fc \<noteq> c then Inr (seat, [])
               else (case source_resource of
                       None \<Rightarrow> Inl Null_dereference
                     | Some s \<Rightarrow> weston_seat_set_primary_selection_part_000 seat (Some s))))"

text \<open>
  \<^verbatim>\<open>weston_primary_selection_source_send_offer\<close> and \<^verbatim>\<open>middle_click_paste\<close>.
  \<open>created\<close> is what \<^verbatim>\<open>weston_data_offer_create\<close> (not in these files) returned: the
  resource of the new offer, or \<^verbatim>\<open>NULL\<close>. \<open>Send_selection_offer target r\<close> announces the
  offer resource \<open>r\<close> on the device \<open>target\<close>; the MIME types are sent on the offer
  resource itself.
\<close>

definition weston_primary_selection_source_send_offer ::
  "wl_resource option \<Rightarrow> weston_data_source \<Rightarrow> wl_resource \<Rightarrow> action list" where
  "weston_primary_selection_source_send_offer created source target =
     (case created of
        None \<Rightarrow> []
      | Some offer_resource \<Rightarrow>
          Send_selection_offer target offer_resource #
          map (Send_offer offer_resource) (mime_types source))"

definition middle_click_paste ::
  "wl_resource option \<Rightarrow> weston_seat \<Rightarrow> weston_pointer \<Rightarrow> action list" where
  "middle_click_paste created seat pointer =
     (case focus pointer of
        None \<Rightarrow> []
      | Some v \<Rightarrow>
          (case view_surface v of
             None \<Rightarrow> []
           | Some sf \<Rightarrow>
               (case primary_selection_data_source seat of
                  None \<Rightarrow> []
                | Some source \<Rightarrow>
                    (case wl_resource_find_for_client
                            (primary_selection_device_resource_list seat)
                            (wl_resource_get_client (surface_resource sf)) of
                       None \<Rightarrow> []
                     | Some r \<Rightarrow>
                         weston_primary_selection_source_send_offer created source r))))"

section \<open>Data offers on the client side (\<^verbatim>\<open>clients/window.c\<close>)\<close>

text \<open>
  One \<^verbatim>\<open>struct data_offer\<close> together with the part of the process it touches: the
  kernel's open pipe read ends with the bytes not yet read, the interest list of the
  display's epoll descriptor, and how often \<^verbatim>\<open>free(offer)\<close> ran. An offer has a single
  \<^verbatim>\<open>io_task\<close>, a single \<^verbatim>\<open>fd\<close> and a single \<^verbatim>\<open>func\<close>.
\<close>

type_synonym byte = "8 word"

datatype io_func = Offer_io_func

record data_offer =
  types :: "string list"
  refcount :: int
  io_task_run :: "io_func option"
  fd :: int
  func :: nat
  offer_x :: int
  offer_y :: int
  user_data :: nat

datatype io_event =
    Wl_data_offer_receive string int
  | Close int
  | Func nat "byte list" "32 word" int int nat
  | Wl_data_offer_destroy
  | Free_offer

record client_io =
  offer :: data_offer
  frees :: nat
  pipes :: "int \<rightharpoonup> byte list"
  watched :: "int set"
  io_log :: "io_event list"

text \<open>
  \<^verbatim>\<open>data_device_data_offer\<close>: the offer is allocated with \<^verbatim>\<open>xmalloc\<close>, so every
  field it does not assign keeps what the memory held (\<open>garbage\<close>).
\<close>

definition data_device_data_offer :: "data_offer \<Rightarrow> data_offer" where
  "data_device_data_offer garbage = garbage\<lparr>types := [], refcount := 1\<rparr>"

definition data_offer_offer :: "string \<Rightarrow> client_io \<Rightarrow> client_io" where
  "data_offer_offer type st = st\<lparr>offer := (offer st)\<lparr>types := types (offer st) @ [type]\<rparr>\<rparr>"

text \<open>
  \<^verbatim>\<open>data_offer_destroy\<close> drops one reference and frees the offer with the last one
  (the loop that frees the type strings first is left out).
\<close>

definition data_offer_destroy :: "client_io \<Rightarrow> client_io" where
  "data_offer_destroy st =
     (let st1 = st\<lparr>offer := (offer st)\<lparr>refcount := refcount (offer st) - 1\<rparr>\<rparr>
      in if refcount (offer st1) = 0
         then st1\<lparr>frees := frees st1 + 1,
                  io_log := io_log st1 @ [Wl_data_offer_destroy, Free_offer]\<rparr>
         else st1)"

text \<open>
  System calls. \<^verbatim>\<open>pipe2\<close> either fails (\<open>None\<close>) or opens a fresh pipe and returns its
  two descriptors. \<^verbatim>\<open>read\<close> on a descriptor that is not open returns \<open>-1\<close>; on an
  open pipe it takes up to \<open>count\<close> of the pending bytes, and returns \<open>0\<close> when none
  is pending (the reader is only called on a readiness notification, so an empty pipe is
  one whose writer has closed). \<^verbatim>\<open>close\<close> also drops the descriptor from the epoll
  interest list, as the kernel does when the last descriptor of an open file is closed.
\<close>

definition pipe2 :: "(int \<times> int) option \<Rightarrow> client_io \<Rightarrow> client_io" where
  "pipe2 p st = (case p of None \<Rightarrow> st | Some (p0, p1) \<Rightarrow> st\<lparr>pipes := (pipes st)(p0 \<mapsto> [])\<rparr>)"

definition read_fd :: "int \<Rightarrow> nat \<Rightarrow> client_io \<Rightarrow> int \<times> byte list \<times> client_io" where
  "read_fd d count st =
     (case pipes st d of
        None \<Rightarrow> (- 1, [], st)
      | Some bs \<Rightarrow> (int (length (take count bs)), take count bs,
                    st\<lparr>pipes := (pipes st)(d \<mapsto> drop count bs)\<rparr>))"

definition close_fd :: "int \<Rightarrow> client_io \<Rightarrow> client_io" where
  "close_fd d st =
     st\<lparr>pipes := (pipes st)(d := None), watched := watched st - {d},
        io_log := io_log st @ [Close d]\<rparr>"

definition display_watch_fd :: "int \<Rightarrow> client_io \<Rightarrow> client_io" where
  "display_watch_fd d st = st\<lparr>watched := insert d (watched st)\<rparr>"

definition display_unwatch_fd :: "int \<Rightarrow> client_io \<Rightarrow> client_io" where
  "display_unwatch_fd d st = st\<lparr>watched := watched st - {d}\<rparr>"

text \<open>
  \<^verbatim>\<open>offer_io_func\<close>: \<^verbatim>\<open>len\<close> is an \<^verbatim>\<open>unsigned int\<close> that receives the result of
  \<^verbatim>\<open>read\<close>; the buffer has 4096 bytes.
\<close>

definition offer_io_func :: "client_io \<Rightarrow> client_io" where
  "offer_io_func st =
     (let (r, buffer, st1) = read_fd (fd (offer st)) 4096 st;
          len = (word_of_int r :: 32 word);
          st2 = st1\<lparr>io_log := io_log st1 @
                  [Func (func (offer st1)) buffer len (offer_x (offer st1)) (offer_y (offer st1))
                     (user_data (offer st1))]\<rparr>
      in if len = 0 then data_offer_destroy (close_fd (fd (offer st2)) st2) else st2)"

text \<open>
  \<^verbatim>\<open>data_offer_receive_data\<close>; \<open>p\<close> is what \<^verbatim>\<open>pipe2\<close> returned.
\<close>

definition data_offer_receive_data ::
  "(int \<times> int) option \<Rightarrow> string \<Rightarrow> nat \<Rightarrow> nat \<Rightarrow> client_io \<Rightarrow> client_io" where
  "data_offer_receive_data p mime_type f ud st =
     (case p of
        None \<Rightarrow> st
      | Some (p0, p1) \<Rightarrow>
          (let st1 = pipe2 p st;
               st2 = st1\<lparr>io_log := io_log st1 @ [Wl_data_offer_receive mime_type p1, Close p1]\<rparr>;
               st3 = st2\<lparr>offer := (offer st2)\<lparr>io_task_run := Some Offer_io_func, fd := p0,
                                               func := f,
                                               refcount := refcount (offer st2) + 1,
                                               user_data := ud\<rparr>\<rparr>
           in display_watch_fd (fd (offer st3)) st3))"

text \<open>
  The event loop calls the task registered for a ready descriptor; every descriptor this
  module registers carries the offer's one \<^verbatim>\<open>io_task\<close>. \<open>notify n d\<close> is \<open>n\<close>
  readiness notifications for \<open>d\<close> in a row. \<open>remote_write\<close> is the far side writing
  into the pipe whose read end is \<open>d\<close>.
\<close>

definition epoll_dispatch :: "int \<Rightarrow> client_io \<Rightarrow> client_io" where
  "epoll_dispatch d st = (if d \<in> watched st then offer_io_func st else st)"

definition notify :: "nat \<Rightarrow> int \<Rightarrow> client_io \<Rightarrow> client_io" where
  "notify n d st = (epoll_dispatch d ^^ n) st"

definition remote_write :: "int \<Rightarrow> byte list \<Rightarrow> client_io \<Rightarrow> client_io" where
  "remote_write d bs st =
     (case pipes st d of None \<Rightarrow> st | Some old \<Rightarrow> st\<lparr>pipes := (pipes st)(d \<mapsto> old @ bs)\<rparr>)"

text \<open>
  The number of reads that consume a stream of pending bytes in chunks of 4096 and then
  see its end.
\<close>

function reads_needed :: "byte list \<Rightarrow> nat" where
  "reads_needed bs = (if bs = [] then 1 else Suc (reads_needed (drop 4096 bs)))"
  by pat_completeness auto
termination
  by (relation "measure length") auto

declare reads_needed.simps [simp del]

definition new_offer_state :: "data_offer \<Rightarrow> client_io" where
  "new_offer_state garbage =
     \<lparr>offer = data_device_data_offer garbage, frees = 0, pipes = Map.empty, watched = {},
      io_log = []\<rparr>"

section \<open>The client event loop (\<^verbatim>\<open>clients/window.c\<close>)\<close>

text \<open>
  \<^verbatim>\<open>struct display\<close>, the fields of the loop. A \<^verbatim>\<open>wl_list\<close> is a list whose first
  element is the one after the list head: \<^verbatim>\<open>wl_list_insert(&list, elm)\<close> puts \<open>elm\<close>
  in front, \<^verbatim>\<open>list.prev\<close> is the last element. \<open>defer_log\<close> and \<open>run_log\<close> are
  history: every task handed to \<^verbatim>\<open>display_defer\<close>, and every task the loop of
  \<^verbatim>\<open>display_run\<close> took from the deferred list and ran, in order. A task has one
  link, so it is in the list at most once at a time (\<^verbatim>\<open>window_schedule_redraw_task\<close>
  sees to it with \<^verbatim>\<open>redraw_task_scheduled\<close>); the list of the model is the
  \<^verbatim>\<open>wl_list\<close> under that use. The record is extensible, so that a task may carry
  state of its own behind the display.
\<close>

datatype halt = Exit_failure | Assertion_failure

record 't display =
  deferred_list :: "'t list"
  running :: bool
  display_fd_interest :: "32 word"
  defer_log :: "'t list"
  run_log :: "'t list"

definition display_defer :: "('t, 'm) display_scheme \<Rightarrow> 't \<Rightarrow> ('t, 'm) display_scheme" where
  "display_defer d task =
     d\<lparr>deferred_list := task # deferred_list d, defer_log := defer_log d @ [task]\<rparr>"

definition display_exit :: "('t, 'm) display_scheme \<Rightarrow> ('t, 'm) display_scheme" where
  "display_exit d = d\<lparr>running := False\<rparr>"

text \<open>
  Where the loop stands when it stops being followed: the fuel ran out inside the
  inner loop, the process ended inside a callback, \<^verbatim>\<open>display_run\<close> left its loop, or
  the loop goes on from the given state.
\<close>

datatype 's stage = Out_of_fuel | Halted halt | Break 's | Continue 's

text \<open>
  The inner loop of \<^verbatim>\<open>display_run\<close>,
  \<^verbatim>\<open>while (!wl_list_empty(&display->deferred_list)) { ... task->run(task, 0); }\<close>.
  \<open>run task events\<close> is what \<^verbatim>\<open>task->run\<close> does; the loop may never end, so it runs
  on fuel, one unit for each task it runs.
\<close>

fun run_deferred_tasks ::
  "('t \<Rightarrow> 32 word \<Rightarrow> ('t, 'm) display_scheme \<Rightarrow> halt + ('t, 'm) display_scheme) \<Rightarrow>
   nat \<Rightarrow> ('t, 'm) display_scheme \<Rightarrow> ('t, 'm) display_scheme stage" where
  "run_deferred_tasks run 0 d = (if deferred_list d = [] then Continue d else Out_of_fuel)"
| "run_deferred_tasks run (Suc n) d =
     (if deferred_list d = [] then Continue d
      else
        (let task = last (deferred_list d);
             d1 = d\<lparr>deferred_list := butlast (deferred_list d), run_log := run_log d @ [task]\<rparr>
         in case run task 0 d1 of
              Inl h \<Rightarrow> Halted h
            | Inr d2 \<Rightarrow> run_deferred_tasks run n d2))"

datatype flush_result = Flush_ok | Flush_eagain | Flush_failed

text \<open>
  One pass of the outer loop of \<^verbatim>\<open>display_run\<close> up to the call of \<^verbatim>\<open>epoll_wait\<close>:
  the inner loop, \<^verbatim>\<open>wl_display_dispatch_pending\<close> (\<open>pending\<close> is what the listeners
  it calls do), the test of \<^verbatim>\<open>running\<close>, and \<^verbatim>\<open>wl_display_flush\<close> with its result
  \<open>fl\<close>. \<open>Continue d\<close> is the state in which \<^verbatim>\<open>epoll_wait\<close> is called.
\<close>

definition display_run_to_wait ::
  "('t \<Rightarrow> 32 word \<Rightarrow> ('t, 'm) display_scheme \<Rightarrow> halt + ('t, 'm) display_scheme) \<Rightarrow>
   (('t, 'm) display_scheme \<Rightarrow> halt + ('t, 'm) display_scheme) \<Rightarrow> flush_result \<Rightarrow>
   nat \<Rightarrow> ('t, 'm) display_scheme \<Rightarrow> ('t, 'm) display_scheme stage" where
  "display_run_to_wait run pending fl n d =
     (case run_deferred_tasks run n d of
        Continue d1 \<Rightarrow>
          (case pending d1 of
             Inl h \<Rightarrow> Halted h
           | Inr d2 \<Rightarrow>
               if \<not> running d2 then Break d2
               else (case fl of
                       Flush_eagain \<Rightarrow> Continue (d2\<lparr>display_fd_interest := 0x1D\<rparr>)
                     | Flush_failed \<Rightarrow> Break d2
                     | Flush_ok \<Rightarrow> Continue d2))
      | other \<Rightarrow> other)"

text \<open>The \<^verbatim>\<open>for\<close> loop over the events \<^verbatim>\<open>epoll_wait\<close> returned.\<close>

fun run_ready ::
  "('t \<Rightarrow> 32 word \<Rightarrow> ('t, 'm) display_scheme \<Rightarrow> halt + ('t, 'm) display_scheme) \<Rightarrow>
   ('t \<times> 32 word) list \<Rightarrow> ('t, 'm) display_scheme \<Rightarrow> halt + ('t, 'm) display_scheme" where
  "run_ready run [] d = Inr d"
| "run_ready run ((task, events) # es) d =
     (case run task events d of Inl h \<Rightarrow> Inl h | Inr d' \<Rightarrow> run_ready run es d')"

text \<open>
  \<^verbatim>\<open>display_run\<close> against a script of what the outside does in each pass: the pending
  listeners, the result of the flush and the events \<^verbatim>\<open>epoll_wait\<close> returns. When the
  script ends the loop is still running (\<open>Continue\<close>).
\<close>

fun display_run_loop ::
  "('t \<Rightarrow> 32 word \<Rightarrow> ('t, 'm) display_scheme \<Rightarrow> halt + ('t, 'm) display_scheme) \<Rightarrow> nat \<Rightarrow>
   ((('t, 'm) display_scheme \<Rightarrow> halt + ('t, 'm) display_scheme) \<times> flush_result \<times>
      ('t \<times> 32 word) list) list \<Rightarrow>
   ('t, 'm) display_scheme \<Rightarrow> ('t, 'm) display_scheme stage" where
  "display_run_loop run n [] d = Continue d"
| "display_run_loop run n ((pending, fl, ready) # script) d =
     (case display_run_to_wait run pending fl n d of
        Continue dw \<Rightarrow>
          (case run_ready run ready dw of
             Inl h \<Rightarrow> Halted h
           | Inr d' \<Rightarrow> display_run_loop run n script d')
      | other \<Rightarrow> other)"

definition display_run ::
  "('t \<Rightarrow> 32 word \<Rightarrow> ('t, 'm) display_scheme \<Rightarrow> halt + ('t, 'm) display_scheme) \<Rightarrow> nat \<Rightarrow>
   ((('t, 'm) display_scheme \<Rightarrow> halt + ('t, 'm) display_scheme) \<times> flush_result \<times>
      ('t \<times> 32 word) list) list \<Rightarrow>
   ('t, 'm) display_scheme \<Rightarrow> ('t, 'm) display_scheme stage" where
  "display_run run n script d = display_run_loop run n script (d\<lparr>running := True\<rparr>)"

text \<open>
  A callback touches the deferred list through \<^verbatim>\<open>display_defer\<close> only: whenever it
  returns, the list has grown in front by the tasks it deferred, and it ran no task of
  the list itself.
\<close>

definition only_defers ::
  "(('t, 'm) display_scheme \<Rightarrow> halt + ('t, 'm) display_scheme) \<Rightarrow> bool" where
  "only_defers f \<longleftrightarrow>
     (\<forall>d d'. f d = Inr d' \<longrightarrow>
        (\<exists>ts. deferred_list d' = rev ts @ deferred_list d
            \<and> defer_log d' = defer_log d @ ts
            \<and> run_log d' = run_log d))"

section \<open>The redraw scheduler (\<^verbatim>\<open>clients/window.c\<close>)\<close>

text \<open>
  One window with its surfaces, behind the display. A surface is named by a number;
  \<open>surfaces\<close> is the memory holding the \<^verbatim>\<open>struct surface\<close> of each, \<open>main_surface\<close>
  and \<open>subsurface_list\<close> hold such names (the main surface is in the list, too). Of a
  surface's root widget the model keeps \<^verbatim>\<open>use_cairo\<close> and \<^verbatim>\<open>allocation\<close>. A drawable
  (\<^verbatim>\<open>cairo_surface\<close>) is represented by the size that the backend's \<^verbatim>\<open>swap\<close> writes
  to \<^verbatim>\<open>server_allocation\<close> for it. The region bookkeeping of \<^verbatim>\<open>surface_resize\<close> and
  \<^verbatim>\<open>surface_flush\<close> and the xdg geometry of \<^verbatim>\<open>window_flush\<close> are left out: they read
  and write nothing that the functions below read.
\<close>

record rectangle =
  rect_x :: int
  rect_y :: int
  width :: int
  height :: int

type_synonym drawable = "int \<times> int"

record surface =
  subsurface :: bool
  synchronized :: bool
  synchronized_default :: bool
  use_cairo :: bool
  widget_allocation :: rectangle
  redraw_needed :: bool
  frame_cb :: "nat option"
  last_time :: "32 word"
  allocation :: rectangle
  server_allocation :: rectangle
  cairo_surface :: "drawable option"

record window =
  saved_allocation :: rectangle
  min_allocation :: rectangle
  pending_allocation :: rectangle
  window_redraw_needed :: bool
  redraw_task_scheduled :: bool
  resize_needed :: bool
  fullscreen :: bool
  maximized :: bool
  has_frame :: bool
  main_surface :: nat
  subsurface_list :: "nat list"
  surfaces :: "nat \<Rightarrow> surface"

text \<open>The one task of a window is its \<^verbatim>\<open>redraw_task\<close>, whose \<^verbatim>\<open>run\<close> is \<^verbatim>\<open>idle_redraw\<close>.\<close>

datatype task = Redraw_task

text \<open>
  What goes out: requests on the protocol connection and calls of the widgets' redraw
  handlers (\<open>Paint\<close>). \<open>Commit\<close> is the backend's \<^verbatim>\<open>swap\<close>, which attaches and
  commits the drawable. The first argument is the surface.
\<close>

datatype request =
    Frame nat nat
  | Destroy_callback nat nat
  | Paint nat
  | Commit nat
  | Set_sync nat
  | Set_desync nat
  | Set_position nat int int

record toolkit = "task display" +
  win :: window
  requests :: "request list"
  next_callback :: nat

text \<open>
  What the window code calls through pointers: the backend's \<^verbatim>\<open>prepare\<close> (it returns
  a drawable for a surface of the given allocation, or \<^verbatim>\<open>NULL\<close>) and the widgets'
  resize handlers, which are the application's. A resize handler is called for the root
  widget of a surface with its new size and sets allocations of root widgets (the one of
  the main surface is, by the comment in \<^verbatim>\<open>window_do_resize\<close>, responsible for those of
  the sub-surfaces). Both return: a backend that ends the process inside \<^verbatim>\<open>prepare\<close>
  (\<^verbatim>\<open>shm_surface_prepare\<close> does when the server holds all its buffers) is not
  covered.
\<close>

record env =
  prepare :: "nat \<Rightarrow> rectangle \<Rightarrow> drawable option"
  resize_handler :: "nat \<Rightarrow> int \<Rightarrow> int \<Rightarrow> (nat \<Rightarrow> rectangle) \<Rightarrow> (nat \<Rightarrow> rectangle)"

definition surf :: "toolkit \<Rightarrow> nat \<Rightarrow> surface" where
  "surf d s = surfaces (win d) s"

definition surf_update :: "nat \<Rightarrow> (surface \<Rightarrow> surface) \<Rightarrow> toolkit \<Rightarrow> toolkit" where
  "surf_update s f d =
     d\<lparr>win := (win d)\<lparr>surfaces := (surfaces (win d))(s := f (surfaces (win d) s))\<rparr>\<rparr>"

definition send :: "request \<Rightarrow> toolkit \<Rightarrow> toolkit" where
  "send r d = d\<lparr>requests := requests d @ [r]\<rparr>"

definition window_schedule_redraw_task :: "toolkit \<Rightarrow> toolkit" where
  "window_schedule_redraw_task d =
     (if \<not> redraw_task_scheduled (win d)
      then (display_defer d Redraw_task)\<lparr>win := (win d)\<lparr>redraw_task_scheduled := True\<rparr>\<rparr>
      else d)"

definition widget_schedule_redraw :: "nat \<Rightarrow> toolkit \<Rightarrow> toolkit" where
  "widget_schedule_redraw s d =
     window_schedule_redraw_task (surf_update s (\<lambda>sf. sf\<lparr>redraw_needed := True\<rparr>) d)"

definition window_schedule_redraw :: "toolkit \<Rightarrow> toolkit" where
  "window_schedule_redraw d =
     window_schedule_redraw_task
       (fold (\<lambda>s. surf_update s (\<lambda>sf. sf\<lparr>redraw_needed := True\<rparr>)) (subsurface_list (win d)) d)"

definition window_schedule_resize :: "int \<Rightarrow> int \<Rightarrow> toolkit \<Rightarrow> toolkit" where
  "window_schedule_resize w h d =
     (let min_width = 200; min_height = 200;
          win1 = (win d)\<lparr>pending_allocation :=
                    \<lparr>rect_x = 0, rect_y = 0, width = w, height = h\<rparr>\<rparr>;
          win2 =
            (if width (min_allocation win1) = 0 then
               win1\<lparr>min_allocation := (min_allocation win1)
                  \<lparr>width := (if w < min_width \<and> has_frame win1 then min_width else w),
                   height := (if h < min_height \<and> has_frame win1 then min_height else h)\<rparr>\<rparr>
             else win1);
          win3 =
            (if width (pending_allocation win2) < width (min_allocation win2)
             then win2\<lparr>pending_allocation :=
                         (pending_allocation win2)\<lparr>width := width (min_allocation win2)\<rparr>\<rparr>
             else win2);
          win4 =
            (if height (pending_allocation win3) < height (min_allocation win3)
             then win3\<lparr>pending_allocation :=
                         (pending_allocation win3)\<lparr>height := height (min_allocation win3)\<rparr>\<rparr>
             else win3)
      in window_schedule_redraw (d\<lparr>win := win4\<lparr>resize_needed := True\<rparr>\<rparr>))"

definition surface_set_synchronized :: "nat \<Rightarrow> toolkit \<Rightarrow> toolkit" where
  "surface_set_synchronized s d =
     (if \<not> subsurface (surf d s) then d
      else if synchronized (surf d s) then d
      else surf_update s (\<lambda>sf. sf\<lparr>synchronized := True\<rparr>) (send (Set_sync s) d))"

definition surface_set_synchronized_default :: "nat \<Rightarrow> toolkit \<Rightarrow> toolkit" where
  "surface_set_synchronized_default s d =
     (if \<not> subsurface (surf d s) then d
      else if synchronized (surf d s) = synchronized_default (surf d s) then d
      else surf_update s (\<lambda>sf. sf\<lparr>synchronized := synchronized_default sf\<rparr>)
             (send (if synchronized_default (surf d s) then Set_sync s else Set_desync s) d))"

definition surface_resize :: "env \<Rightarrow> nat \<Rightarrow> toolkit \<Rightarrow> toolkit" where
  "surface_resize env s d =
     (let wa = widget_allocation (surf d s);
          handled = resize_handler env s (width wa) (height wa)
                      (\<lambda>t. widget_allocation (surf d t));
          d1 = d\<lparr>win := (win d)\<lparr>surfaces :=
                  (\<lambda>t. (surfaces (win d) t)\<lparr>widget_allocation := handled t\<rparr>)\<rparr>\<rparr>;
          sf1 = surf d1 s;
          d2 = (if subsurface sf1 \<and>
                   (rect_x (allocation sf1) \<noteq> rect_x (widget_allocation sf1) \<or>
                    rect_y (allocation sf1) \<noteq> rect_y (widget_allocation sf1))
                then send (Set_position s (rect_x (widget_allocation sf1))
                             (rect_y (widget_allocation sf1))) d1
                else d1);
          d3 = (if width (allocation sf1) \<noteq> width (widget_allocation sf1) \<or>
                   height (allocation sf1) \<noteq> height (widget_allocation sf1)
                then window_schedule_redraw d2
                else d2)
      in surf_update s (\<lambda>sf. sf\<lparr>allocation := widget_allocation sf\<rparr>) d3)"

definition window_do_resize :: "env \<Rightarrow> toolkit \<Rightarrow> toolkit" where
  "window_do_resize env d =
     (let m = main_surface (win d);
          d1 = surf_update m (\<lambda>sf. sf\<lparr>widget_allocation := pending_allocation (win d)\<rparr>) d;
          d2 = surface_resize env m d1;
          d3 = fold (\<lambda>s d'. if s = m then d'
                             else surface_resize env s (surface_set_synchronized s d'))
                 (subsurface_list (win d2)) d2
      in if \<not> fullscreen (win d3) \<and> \<not> maximized (win d3)
         then d3\<lparr>win := (win d3)\<lparr>saved_allocation := pending_allocation (win d3)\<rparr>\<rparr>
         else d3)"

definition idle_resize :: "env \<Rightarrow> toolkit \<Rightarrow> toolkit" where
  "idle_resize env d =
     window_do_resize env
       (d\<lparr>win := (win d)\<lparr>resize_needed := False, window_redraw_needed := True\<rparr>\<rparr>)"

text \<open>\<^verbatim>\<open>undo_resize\<close> ends the process with \<^verbatim>\<open>exit(EXIT_FAILURE)\<close> when it is back at 0x0.\<close>

definition undo_resize :: "env \<Rightarrow> toolkit \<Rightarrow> halt + toolkit" where
  "undo_resize env d =
     (let sa = server_allocation (surf d (main_surface (win d)));
          d1 = d\<lparr>win := (win d)\<lparr>pending_allocation :=
                  (pending_allocation (win d))\<lparr>width := width sa, height := height sa\<rparr>\<rparr>\<rparr>;
          d2 = window_do_resize env d1
      in if width (pending_allocation (win d2)) = 0 \<and> height (pending_allocation (win d2)) = 0
         then Inl Exit_failure
         else Inr d2)"

definition surface_flush :: "nat \<Rightarrow> toolkit \<Rightarrow> toolkit" where
  "surface_flush s d =
     (case cairo_surface (surf d s) of
        None \<Rightarrow> d
      | Some (w, h) \<Rightarrow>
          surf_update s (\<lambda>sf. sf\<lparr>cairo_surface := None\<rparr>)
            (send (Commit s)
               (surf_update s
                  (\<lambda>sf. sf\<lparr>server_allocation := (server_allocation sf)\<lparr>width := w, height := h\<rparr>\<rparr>)
                  d)))"

definition window_flush :: "toolkit \<Rightarrow> toolkit" where
  "window_flush d =
     (let m = main_surface (win d)
      in surface_flush m
           (fold (\<lambda>s d'. if s = m then d' else surface_flush s d') (subsurface_list (win d)) d))"

text \<open>
  \<^verbatim>\<open>widget_get_cairo_surface\<close> with \<^verbatim>\<open>surface_create_surface\<close>: a surface without a
  drawable asks the backend for one of its allocation.
\<close>

definition widget_get_cairo_surface :: "env \<Rightarrow> nat \<Rightarrow> toolkit \<Rightarrow> toolkit" where
  "widget_get_cairo_surface env s d =
     (if cairo_surface (surf d s) = None
      then surf_update s (\<lambda>sf. sf\<lparr>cairo_surface := prepare env s (allocation sf)\<rparr>) d
      else d)"

text \<open>
  \<^verbatim>\<open>widget_cairo_create\<close> and \<^verbatim>\<open>window_get_surface\<close>, which the application calls to
  draw: both get the drawable of the surface through \<^verbatim>\<open>widget_get_cairo_surface\<close>, whose
  \<^verbatim>\<open>assert(widget->use_cairo)\<close> is the failure here. \<open>s\<close> is the surface of the widget;
  the cairo context they return is not part of the state.
\<close>

definition widget_cairo_create :: "env \<Rightarrow> nat \<Rightarrow> toolkit \<Rightarrow> halt + toolkit" where
  "widget_cairo_create env s d =
     (if \<not> use_cairo (surf d s) then Inl Assertion_failure
      else Inr (widget_get_cairo_surface env s d))"

definition window_get_surface :: "env \<Rightarrow> toolkit \<Rightarrow> halt + toolkit" where
  "window_get_surface env d =
     (if \<not> use_cairo (surf d (main_surface (win d))) then Inl Assertion_failure
      else Inr (widget_get_cairo_surface env (main_surface (win d)) d))"

definition widget_redraw :: "nat \<Rightarrow> toolkit \<Rightarrow> toolkit" where
  "widget_redraw s d = send (Paint s) d"

text \<open>
  \<^verbatim>\<open>frame_callback\<close>, the listener of a surface's frame callback: \<open>callback\<close> is the
  callback object the event is for.
\<close>

definition frame_callback :: "nat \<Rightarrow> nat \<Rightarrow> 32 word \<Rightarrow> toolkit \<Rightarrow> halt + toolkit" where
  "frame_callback s callback time d =
     (if frame_cb (surf d s) \<noteq> Some callback then Inl Assertion_failure
      else
        (let d1 = send (Destroy_callback s callback) d;
             d2 = surf_update s (\<lambda>sf. sf\<lparr>frame_cb := None, last_time := time\<rparr>) d1
         in if redraw_needed (surf d2 s) \<or> window_redraw_needed (win d2)
            then Inr (window_schedule_redraw_task d2)
            else Inr d2))"

text \<open>
  \<^verbatim>\<open>surface_redraw\<close>. On the forced path the old callback is destroyed and the field
  keeps its address until a new one is stored, which the failure path does not do.
\<close>

definition surface_redraw :: "env \<Rightarrow> nat \<Rightarrow> toolkit \<Rightarrow> int \<times> toolkit" where
  "surface_redraw env s d =
     (if \<not> window_redraw_needed (win d) \<and> \<not> redraw_needed (surf d s) then (0, d)
      else if frame_cb (surf d s) \<noteq> None \<and> \<not> window_redraw_needed (win d) then (0, d)
      else
        (let d1 = (case frame_cb (surf d s) of
                     Some cb \<Rightarrow> send (Destroy_callback s cb) d
                   | None \<Rightarrow> d);
             d2 = (if use_cairo (surf d1 s) then widget_get_cairo_surface env s d1 else d1)
         in if use_cairo (surf d1 s) \<and> cairo_surface (surf d2 s) = None then (- 1, d2)
            else
              (let cb = next_callback d2;
                   d3 = send (Frame s cb) (d2\<lparr>next_callback := cb + 1\<rparr>);
                   d4 = surf_update s (\<lambda>sf. sf\<lparr>frame_cb := Some cb, redraw_needed := False\<rparr>) d3
               in (0, widget_redraw s d4))))"

definition idle_redraw :: "env \<Rightarrow> toolkit \<Rightarrow> halt + toolkit" where
  "idle_redraw env d0 =
     (let d = d0\<lparr>win := (win d0)\<lparr>redraw_task_scheduled := False\<rparr>\<rparr>;
          m = main_surface (win d)
      in if resize_needed (win d) \<and> frame_cb (surf d m) \<noteq> None then Inr d
         else
           (let resized = resize_needed (win d);
                d1 = (if resized then idle_resize env d else d);
                (r, d2) = surface_redraw env m d1;
                failed = (r < 0);
                d3 = (if failed then d2
                      else fold (\<lambda>s d'. if s = m then d' else snd (surface_redraw env s d'))
                             (subsurface_list (win d2)) d2);
                d4 = d3\<lparr>win := (win d3)\<lparr>window_redraw_needed := False\<rparr>\<rparr>;
                d5 = window_flush d4;
                d6 = fold surface_set_synchronized_default (subsurface_list (win d5)) d5
            in if resized \<and> failed then undo_resize env d6 else Inr d6))"

definition task_run :: "env \<Rightarrow> task \<Rightarrow> 32 word \<Rightarrow> toolkit \<Rightarrow> halt + toolkit" where
  "task_run env t events d = (case t of Redraw_task \<Rightarrow> idle_redraw env d)"

section \<open>Relations between states, used in the statements and proofs\<close>

text \<open>
  \<open>deferred_since d d'\<close>: from \<open>d\<close> to \<open>d'\<close> the deferred list only grew in front, by
  the tasks that were deferred, and no task of it was run.
\<close>

definition deferred_since :: "('t, 'm) display_scheme \<Rightarrow> ('t, 'm) display_scheme \<Rightarrow> bool" where
  "deferred_since d d' \<longleftrightarrow>
     (\<exists>ts. deferred_list d' = rev ts @ deferred_list d
         \<and> defer_log d' = defer_log d @ ts
         \<and> run_log d' = run_log d)"

text \<open>
  What a resize leaves alone: the window's pending allocation, its surfaces and its
  state (\<open>window_kept\<close>), and the drawable and the frame callback of a surface
  (\<open>drawable_kept\<close>).
\<close>

definition window_kept :: "toolkit \<Rightarrow> toolkit \<Rightarrow> bool" where
  "window_kept d d' \<longleftrightarrow>
     pending_allocation (win d') = pending_allocation (win d)
   \<and> main_surface (win d') = main_surface (win d)
   \<and> subsurface_list (win d') = subsurface_list (win d)
   \<and> fullscreen (win d') = fullscreen (win d)
   \<and> maximized (win d') = maximized (win d)"

definition drawable_kept :: "nat \<Rightarrow> toolkit \<Rightarrow> toolkit \<Rightarrow> bool" where
  "drawable_kept s d d' \<longleftrightarrow>
     server_allocation (surf d' s) = server_allocation (surf d s)
   \<and> cairo_surface (surf d' s) = cairo_surface (surf d s)
   \<and> use_cairo (surf d' s) = use_cairo (surf d s)
   \<and> frame_cb (surf d' s) = frame_cb (surf d s)"

definition resize_kept :: "nat \<Rightarrow> toolkit \<Rightarrow> toolkit \<Rightarrow> bool" where
  "resize_kept s d d' \<longleftrightarrow> window_kept d d' \<and> drawable_kept s d d'
     \<and> resize_needed (win d') = resize_needed (win d)
     \<and> window_redraw_needed (win d') = window_redraw_needed (win d)"

text \<open>
  \<open>draws s r\<close>: the request \<open>r\<close> is part of a redraw of surface \<open>s\<close> (a frame
  callback is requested, the widgets are painted, the drawable is committed).
  \<open>undrawn s d d'\<close>: from \<open>d\<close> to \<open>d'\<close> nothing was drawn on \<open>s\<close> and its redraw
  state is as it was. \<open>throttled s d\<close>: \<open>s\<close> waits for its frame callback, nothing
  forces a redraw of the whole window, and no drawable was acquired for \<open>s\<close> since its
  last commit.
\<close>

fun draws :: "nat \<Rightarrow> request \<Rightarrow> bool" where
  "draws s (Frame t cb) = (t = s)"
| "draws s (Paint t) = (t = s)"
| "draws s (Commit t) = (t = s)"
| "draws s (Destroy_callback t cb) = False"
| "draws s (Set_sync t) = False"
| "draws s (Set_desync t) = False"
| "draws s (Set_position t px py) = False"

definition undrawn :: "nat \<Rightarrow> toolkit \<Rightarrow> toolkit \<Rightarrow> bool" where
  "undrawn s d d' \<longleftrightarrow>
     frame_cb (surf d' s) = frame_cb (surf d s)
   \<and> redraw_needed (surf d' s) = redraw_needed (surf d s)
   \<and> cairo_surface (surf d' s) = cairo_surface (surf d s)
   \<and> filter (draws s) (requests d') = filter (draws s) (requests d)
   \<and> window_redraw_needed (win d') = window_redraw_needed (win d)
   \<and> main_surface (win d') = main_surface (win d)
   \<and> subsurface_list (win d') = subsurface_list (win d)"

definition throttled :: "nat \<Rightarrow> toolkit \<Rightarrow> bool" where
  "throttled s d \<longleftrightarrow> frame_cb (surf d s) \<noteq> None \<and> \<not> window_redraw_needed (win d)
      \<and> cairo_surface (surf d s) = None"

definition held :: "nat \<Rightarrow> toolkit \<Rightarrow> toolkit \<Rightarrow> bool" where
  "held s d d' \<longleftrightarrow> (throttled s d \<longrightarrow> throttled s d' \<and> undrawn s d d')"

section \<open>Concrete states used in examples\<close>

definition source_a :: weston_data_source where
  "source_a = \<lparr>source_addr = 10, resource = \<lparr>res_id = 11, res_client = 1\<rparr>,
               mime_types = [''text/plain'']\<rparr>"

definition source_b :: weston_data_source where
  "source_b = \<lparr>source_addr = 20, resource = \<lparr>res_id = 21, res_client = 2\<rparr>,
               mime_types = [''text/uri-list'']\<rparr>"

text \<open>
  A seat with a primary-selection device for each of the clients 1, 2 and 3, whose
  current source belongs to client 1, and with the pointer focus on client 2.
\<close>

definition seat_three_clients :: weston_seat where
  "seat_three_clients =
     \<lparr>primary_selection_data_source = Some source_a,
      primary_data_source_listener_notify = Some Destroy_primary_selection_data_source,
      primary_data_source_listener_link = Some 10,
      primary_selection_device_resource_list =
        [\<lparr>res_id = 1, res_client = 1\<rparr>, \<lparr>res_id = 2, res_client = 2\<rparr>,
         \<lparr>res_id = 3, res_client = 3\<rparr>],
      pointer_state = Some \<lparr>focus = None, focus_client = Some \<lparr>client = 2\<rparr>\<rparr>\<rparr>"

definition garbage0 :: data_offer where
  "garbage0 = \<lparr>types = [], refcount = 0, io_task_run = None, fd = - 1, func = 0, offer_x = 0,
                offer_y = 0, user_data = 0\<rparr>"

text \<open>
  A fresh offer on which \<^verbatim>\<open>data_offer_receive_data\<close> ran twice, for two MIME types
  and two consumers, before anything was read; the far side then wrote two bytes into the
  first pipe and one byte into the second and closed both. The first pipe is (5, 6); its
  write end 6 is closed once sent, so the second pipe is (6, 7).
\<close>

definition two_receives_in_flight :: client_io where
  "two_receives_in_flight =
     remote_write 6 [3] (remote_write 5 [1, 2]
       (data_offer_receive_data (Some (6, 7)) ''text/html'' 2 0
          (data_offer_receive_data (Some (5, 6)) ''text/plain'' 1 0 (new_offer_state garbage0))))"

text \<open>A task on a plain display: task 1 defers the tasks 3 and 4, every other task nothing.\<close>

definition run_example :: "nat \<Rightarrow> 32 word \<Rightarrow> nat display \<Rightarrow> halt + nat display" where
  "run_example t events d =
     (if t = 1 then Inr (display_defer (display_defer d 3) 4) else Inr d)"

text \<open>
  A window with one surface that uses cairo, a backend that has a drawable for every
  surface of positive size, and no resize handler; the same window after its first
  redraw was committed (its frame callback 0 is pending); a window with a sub-surface
  and a backend that has no drawable for the sub-surface.
\<close>

definition plain_surface :: surface where
  "plain_surface =
     \<lparr>subsurface = False, synchronized = False, synchronized_default = False, use_cairo = True,
      widget_allocation = \<lparr>rect_x = 0, rect_y = 0, width = 300, height = 200\<rparr>,
      redraw_needed = False, frame_cb = None, last_time = 0,
      allocation = \<lparr>rect_x = 0, rect_y = 0, width = 300, height = 200\<rparr>,
      server_allocation = \<lparr>rect_x = 0, rect_y = 0, width = 300, height = 200\<rparr>,
      cairo_surface = None\<rparr>"

definition one_surface_window :: toolkit where
  "one_surface_window =
     \<lparr>deferred_list = [], running = True, display_fd_interest = 0x19, defer_log = [], run_log = [],
      win = \<lparr>saved_allocation = \<lparr>rect_x = 0, rect_y = 0, width = 300, height = 200\<rparr>,
             min_allocation = \<lparr>rect_x = 0, rect_y = 0, width = 0, height = 0\<rparr>,
             pending_allocation = \<lparr>rect_x = 0, rect_y = 0, width = 300, height = 200\<rparr>,
             window_redraw_needed = False, redraw_task_scheduled = False, resize_needed = False,
             fullscreen = False, maximized = False, has_frame = False,
             main_surface = 0, subsurface_list = [0], surfaces = (\<lambda>_. plain_surface)\<rparr>,
      requests = [], next_callback = 0\<rparr>"

definition simple_env :: env where
  "simple_env =
     \<lparr>prepare = (\<lambda>s a. if 0 < width a \<and> 0 < height a then Some (width a, height a) else None),
      resize_handler = (\<lambda>s w h wa. wa)\<rparr>"

definition committed_once :: toolkit where
  "committed_once =
     one_surface_window
       \<lparr>defer_log := [Redraw_task], run_log := [Redraw_task],
        win := (win one_surface_window)
                 \<lparr>surfaces := (\<lambda>_. plain_surface)(0 := plain_surface\<lparr>frame_cb := Some 0\<rparr>)\<rparr>,
        requests := [Frame 0 0, Paint 0, Commit 0], next_callback := 1\<rparr>"



section \<open>Properties of the primary selection\<close>

text \<open>
  Claim C9 as stated fails in its last part: the seat keeps a reference to the destroyed
  source. The listener of the seat was linked into the \<^verbatim>\<open>destroy_signal\<close> of the source
  at address 10 when that source was installed, and
  \<^verbatim>\<open>destroy_primary_selection_data_source\<close> has no \<^verbatim>\<open>wl_list_remove\<close>: after it ran the
  current source is cleared, and the link of the listener still points into the list of
  the source at address 10.
\<close>

theorem destroyed_source_listener_link_retained:
  "primary_selection_data_source seat_three_clients = Some source_a
   \<and> source_addr source_a = 10
   \<and> primary_data_source_listener_link seat_three_clients = Some 10
   \<and> primary_selection_data_source (fst (destroy_primary_selection_data_source seat_three_clients))
       = None
   \<and> primary_data_source_listener_link (fst (destroy_primary_selection_data_source seat_three_clients))
       = Some 10"
  by (simp add: destroy_primary_selection_data_source_def seat_three_clients_def source_a_def)

text \<open>
  Claim C9, as the code has it. When the active source is destroyed from outside, the
  seat's destruction listener (the same function in both files) clears the current source
  and emits the primary-selection signal exactly once, and does nothing else: the link of
  the listener is left as it was, in the list of the destroyed source. What is retained
  is not used by the code of these files afterwards: the next
  \<^verbatim>\<open>weston_seat_set_primary_selection\<close>, in either file, neither calls the cancel hook
  of the destroyed source nor unlinks the listener from its signal, and a paste sends
  nothing.
\<close>

theorem destroy_clears_source_and_emits_once:
  "primary_selection_data_source (fst (destroy_primary_selection_data_source seat)) = None
   \<and> snd (destroy_primary_selection_data_source seat)
       = [Set_current_source None, Wl_signal_emit_primary_selection]
   \<and> primary_data_source_listener_link (fst (destroy_primary_selection_data_source seat))
       = primary_data_source_listener_link seat
   \<and> snd (weston_seat_set_primary_selection (fst (destroy_primary_selection_data_source seat)) src)
       = (case src of None \<Rightarrow> [Set_current_source None]
          | Some s \<Rightarrow> [Set_current_source (Some (source_addr s)), Wl_signal_add (source_addr s)])
   \<and> weston_seat_set_primary_selection_part_000 (fst (destroy_primary_selection_data_source seat)) src
       = Inr (weston_seat_set_primary_selection (fst (destroy_primary_selection_data_source seat)) src)
   \<and> middle_click_paste created (fst (destroy_primary_selection_data_source seat)) p = []"
  by (simp add: destroy_primary_selection_data_source_def weston_seat_set_primary_selection_def
        weston_seat_set_primary_selection_part_000_def middle_click_paste_def
      split: option.splits)

text \<open>
  Claim C7, at the input where it fails: when no client has the pointer focus
  (\<^verbatim>\<open>focus_client\<close> is \<^verbatim>\<open>NULL\<close>), the request handler of either file dereferences the
  null pointer instead of returning.
\<close>

theorem set_selection_without_focus_client_faults:
  "weston_primary_selection_device_set_selection c
     (seat\<lparr>pointer_state := Some (p\<lparr>focus_client := None\<rparr>)\<rparr>) src = Inl Null_dereference
   \<and> weston_primary_selection_device_selection_set c
     (seat\<lparr>pointer_state := Some (p\<lparr>focus_client := None\<rparr>)\<rparr>) src = Inl Null_dereference"
  by (simp add: weston_primary_selection_device_set_selection_def
        weston_primary_selection_device_selection_set_def)

text \<open>
  When some other client has the pointer focus, the request is dropped: the seat is
  returned as it was and nothing is sent.
\<close>

lemma set_selection_other_focus_rejected:
  assumes "pointer_state seat = Some p" and "focus_client p = Some fc" and "client fc \<noteq> c"
  shows "weston_primary_selection_device_set_selection c seat src = Inr (seat, [])"
    and "weston_primary_selection_device_selection_set c seat src = Inr (seat, [])"
  using assms
  by (simp_all add: weston_primary_selection_device_set_selection_def
        weston_primary_selection_device_selection_set_def)

text \<open>
  Claim C5, as the code has it. With an active source \<open>cs\<close> whose owner has a device
  \<open>r\<close> on the seat, installing a source \<open>s\<close> calls the cancel hook of \<open>cs\<close> once,
  unlinks the destruction listener, then stores \<open>s\<close> and adds the listener to the
  destroy signal of \<open>s\<close>. \<^verbatim>\<open>src/primary-selection.c\<close> sends no notification at all;
  \<^verbatim>\<open>part_000\<close> sends \<^verbatim>\<open>selection_changed\<close> to \<open>r\<close>, the device of the previous
  owner, and to no other device, when the two owners differ.
\<close>

theorem set_source_cancels_then_installs:
  assumes "primary_selection_data_source seat = Some cs"
    and "wl_resource_find_for_client (primary_selection_device_resource_list seat)
           (wl_resource_get_client (resource cs)) = Some r"
  shows "weston_seat_set_primary_selection seat (Some s)
           = (seat\<lparr>primary_selection_data_source := Some s,
                   primary_data_source_listener_notify := Some Destroy_primary_selection_data_source,
                   primary_data_source_listener_link := Some (source_addr s)\<rparr>,
              [Cancel (source_addr cs), Wl_list_remove_listener,
               Set_current_source (Some (source_addr s)), Wl_signal_add (source_addr s)])
       \<and> weston_seat_set_primary_selection_part_000 seat (Some s)
           = Inr (seat\<lparr>primary_selection_data_source := Some s,
                   primary_data_source_listener_notify := Some Destroy_primary_selection_data_source,
                   primary_data_source_listener_link := Some (source_addr s)\<rparr>,
              Cancel (source_addr cs) #
              (if wl_resource_get_client (resource cs) \<noteq> wl_resource_get_client (resource s)
               then [Send_selection_changed r] else []) @
              [Wl_list_remove_listener,
               Set_current_source (Some (source_addr s)), Wl_signal_add (source_addr s)])"
  using assms
  by (simp add: weston_seat_set_primary_selection_def weston_seat_set_primary_selection_part_000_def)

theorem set_source_cancels_then_installs_witness:
  "snd (weston_seat_set_primary_selection seat_three_clients (Some source_b))
     = [Cancel 10, Wl_list_remove_listener, Set_current_source (Some 20), Wl_signal_add 20]
   \<and> map_sum id snd (weston_seat_set_primary_selection_part_000 seat_three_clients (Some source_b))
     = Inr [Cancel 10, Send_selection_changed \<lparr>res_id = 1, res_client = 1\<rparr>,
            Wl_list_remove_listener, Set_current_source (Some 20), Wl_signal_add 20]"
proof -
  have a: "primary_selection_data_source seat_three_clients = Some source_a"
    by (simp add: seat_three_clients_def)
  have b: "wl_resource_find_for_client (primary_selection_device_resource_list seat_three_clients)
             (wl_resource_get_client (resource source_a)) = Some \<lparr>res_id = 1, res_client = 1\<rparr>"
    by (simp add: seat_three_clients_def source_a_def wl_resource_find_for_client_def
          wl_resource_get_client_def)
  show ?thesis
    using set_source_cancels_then_installs [OF a b, of source_b]
    by (simp add: source_a_def source_b_def wl_resource_get_client_def)
qed

text \<open>
  Claim C5 as stated fails: client 3 has a device on the seat and is neither the previous
  owner (client 1) nor the new one (client 2), and neither file sends it
  \<^verbatim>\<open>selection_changed\<close>.
\<close>

theorem bystander_device_not_notified:
  "\<lparr>res_id = 3, res_client = 3\<rparr> \<in> set (primary_selection_device_resource_list seat_three_clients)
   \<and> res_client \<lparr>res_id = 3, res_client = 3\<rparr> \<noteq> wl_resource_get_client (resource source_b)
   \<and> wl_resource_get_client (resource source_a) \<noteq> wl_resource_get_client (resource source_b)
   \<and> Send_selection_changed \<lparr>res_id = 3, res_client = 3\<rparr>
        \<notin> set (snd (weston_seat_set_primary_selection seat_three_clients (Some source_b)))
   \<and> map_sum id snd (weston_seat_set_primary_selection_part_000 seat_three_clients (Some source_b))
        = Inr [Cancel 10, Send_selection_changed \<lparr>res_id = 1, res_client = 1\<rparr>,
               Wl_list_remove_listener, Set_current_source (Some 20), Wl_signal_add 20]"
  by (simp add: seat_three_clients_def source_a_def source_b_def wl_resource_get_client_def
        wl_resource_find_for_client_def weston_seat_set_primary_selection_def
        weston_seat_set_primary_selection_part_000_def)

text \<open>
  Claim C10, as the code has it. Whenever the function of \<^verbatim>\<open>part_000\<close> returns, it
  leaves the seat that the function of \<^verbatim>\<open>src/primary-selection.c\<close> leaves, and does
  what that one does apart from the \<^verbatim>\<open>selection_changed\<close> events, which only
  \<^verbatim>\<open>part_000\<close> sends.
\<close>

theorem set_primary_selection_versions_agree_up_to_notification:
  assumes "weston_seat_set_primary_selection_part_000 seat source = Inr (seat', tr)"
  shows "seat' = fst (weston_seat_set_primary_selection seat source)
       \<and> filter (\<lambda>a. case a of Send_selection_changed _ \<Rightarrow> False | _ \<Rightarrow> True) tr
           = snd (weston_seat_set_primary_selection seat source)"
  using assms
  by (auto simp add: weston_seat_set_primary_selection_def
        weston_seat_set_primary_selection_part_000_def Let_def
      split: option.splits if_splits)

theorem set_primary_selection_versions_agree_witness:
  "weston_seat_set_primary_selection_part_000 seat_three_clients (Some source_b)
     = Inr (fst (weston_seat_set_primary_selection seat_three_clients (Some source_b)),
            [Cancel 10, Send_selection_changed \<lparr>res_id = 1, res_client = 1\<rparr>,
             Wl_list_remove_listener, Set_current_source (Some 20), Wl_signal_add 20])
   \<and> snd (weston_seat_set_primary_selection seat_three_clients (Some source_b))
     = [Cancel 10, Wl_list_remove_listener, Set_current_source (Some 20), Wl_signal_add 20]"
proof -
  have e: "weston_seat_set_primary_selection_part_000 seat_three_clients (Some source_b)
     = Inr (fst (weston_seat_set_primary_selection seat_three_clients (Some source_b)),
            [Cancel 10, Send_selection_changed \<lparr>res_id = 1, res_client = 1\<rparr>,
             Wl_list_remove_listener, Set_current_source (Some 20), Wl_signal_add 20])"
    by (simp add: seat_three_clients_def source_a_def source_b_def wl_resource_get_client_def
          wl_resource_find_for_client_def weston_seat_set_primary_selection_def
          weston_seat_set_primary_selection_part_000_def)
  show ?thesis
    using set_primary_selection_versions_agree_up_to_notification [OF e] e by simp
qed

text \<open>
  Claim C10 as stated fails: on the seat above the two functions do not send the same
  notifications.
\<close>

theorem set_primary_selection_versions_differ:
  "weston_seat_set_primary_selection_part_000 seat_three_clients (Some source_b)
     \<noteq> Inr (weston_seat_set_primary_selection seat_three_clients (Some source_b))"
  by (simp add: seat_three_clients_def source_a_def source_b_def wl_resource_get_client_def
        wl_resource_find_for_client_def weston_seat_set_primary_selection_def
        weston_seat_set_primary_selection_part_000_def)

section \<open>Properties of data offers\<close>

lemma word_of_nat_small_zero:
  assumes "n \<le> 4096"
  shows "((word_of_nat n :: 32 word) = 0) = (n = 0)"
proof
  assume "(word_of_nat n :: 32 word) = 0"
  then have d: "(2::nat) ^ 32 dvd n" by (simp add: word_of_nat_eq_0_iff)
  show "n = 0"
  proof (rule ccontr)
    assume "n \<noteq> 0"
    then have "(2::nat) ^ 32 \<le> n" using d by (simp add: dvd_imp_le)
    with assms show False by simp
  qed
qed simp

lemma len_zero_iff:
  "length bs \<le> 4096 \<Longrightarrow> ((word_of_int (int (length bs)) :: 32 word) = 0) = (bs = [])"
  using word_of_nat_small_zero[of "length bs"] by simp

text \<open>The three outcomes of \<^verbatim>\<open>read\<close> in \<^verbatim>\<open>offer_io_func\<close>: data, end of stream, error.\<close>

lemma offer_io_func_data:
  assumes "pipes st (fd (offer st)) = Some bs" "bs \<noteq> []"
  shows "offer_io_func st =
           st\<lparr>pipes := (pipes st)(fd (offer st) \<mapsto> drop 4096 bs),
              io_log := io_log st @
                [Func (func (offer st)) (take 4096 bs) (word_of_nat (length (take 4096 bs)))
                   (offer_x (offer st)) (offer_y (offer st)) (user_data (offer st))]\<rparr>"
proof -
  have "take 4096 bs \<noteq> []" using assms(2) by simp
  moreover have "length (take 4096 bs) \<le> 4096" by simp
  ultimately have nz: "(word_of_int (int (length (take 4096 bs))) :: 32 word) \<noteq> 0"
    using len_zero_iff by blast
  have rd: "read_fd (fd (offer st)) 4096 st =
      (int (length (take 4096 bs)), take 4096 bs,
       st\<lparr>pipes := (pipes st)(fd (offer st) \<mapsto> drop 4096 bs)\<rparr>)"
    using assms(1) by (simp add: read_fd_def)
  show ?thesis
    unfolding offer_io_func_def rd using nz by (simp add: Let_def)
qed

lemma offer_io_func_eof:
  assumes "pipes st (fd (offer st)) = Some []"
  shows "offer_io_func st =
           data_offer_destroy
             (st\<lparr>pipes := (pipes st)(fd (offer st) := None),
                 watched := watched st - {fd (offer st)},
                 io_log := io_log st @
                   [Func (func (offer st)) [] 0
                      (offer_x (offer st)) (offer_y (offer st)) (user_data (offer st)),
                    Close (fd (offer st))]\<rparr>)"
proof -
  have rd: "read_fd (fd (offer st)) 4096 st =
      (0, [], st\<lparr>pipes := (pipes st)(fd (offer st) \<mapsto> [])\<rparr>)"
    using assms(1) by (simp add: read_fd_def)
  show ?thesis
    unfolding offer_io_func_def rd by (simp add: Let_def close_fd_def)
qed

lemma offer_io_func_closed:
  assumes "pipes st (fd (offer st)) = None"
  shows "offer_io_func st =
           st\<lparr>io_log := io_log st @
                   [Func (func (offer st)) [] (- 1)
                      (offer_x (offer st)) (offer_y (offer st)) (user_data (offer st))]\<rparr>"
proof -
  have rd: "read_fd (fd (offer st)) 4096 st = (- 1, [], st)"
    using assms(1) by (simp add: read_fd_def)
  show ?thesis
    unfolding offer_io_func_def rd by (simp add: Let_def)
qed

lemma notify_Suc: "notify (Suc n) d st = notify n d (epoll_dispatch d st)"
  by (simp add: notify_def funpow_swap1)

text \<open>
  A stream whose descriptor is the one in the offer is read to its end by
  \<open>reads_needed\<close> notifications; the last one closes the descriptor and drops the
  stream's reference.
\<close>

lemma stream_read_to_end:
  "fd (offer st) = d \<Longrightarrow> pipes st d = Some bs \<Longrightarrow> d \<in> watched st \<Longrightarrow>
   \<exists>lg. notify (reads_needed bs) d st =
      data_offer_destroy (st\<lparr>pipes := (pipes st)(d := None), watched := watched st - {d},
                             io_log := lg\<rparr>)"
proof (induction bs arbitrary: st rule: length_induct)
  case (1 bs)
  show ?case
  proof (cases "bs = []")
    case True
    have "reads_needed bs = Suc 0" using True by (simp add: reads_needed.simps)
    then have "notify (reads_needed bs) d st = offer_io_func st"
      using 1(4) by (simp add: notify_def epoll_dispatch_def)
    also have "\<dots> = data_offer_destroy
             (st\<lparr>pipes := (pipes st)(d := None),
                 watched := watched st - {d},
                 io_log := io_log st @
                   [Func (func (offer st)) [] 0
                      (offer_x (offer st)) (offer_y (offer st)) (user_data (offer st)),
                    Close d]\<rparr>)"
      using offer_io_func_eof[of st] 1(2,3) True by simp
    finally show ?thesis by (rule exI)
  next
    case False
    let ?st1 = "offer_io_func st"
    have st1: "?st1 = st\<lparr>pipes := (pipes st)(d \<mapsto> drop 4096 bs),
              io_log := io_log st @
                [Func (func (offer st)) (take 4096 bs) (word_of_nat (length (take 4096 bs)))
                   (offer_x (offer st)) (offer_y (offer st)) (user_data (offer st))]\<rparr>"
      using offer_io_func_data[of st bs] 1(2,3) False by simp
    have shorter: "length (drop 4096 bs) < length bs" using False by simp
    have a: "fd (offer ?st1) = d" "pipes ?st1 d = Some (drop 4096 bs)" "d \<in> watched ?st1"
      using 1(2,4) by (simp_all add: st1)
    from 1(1) shorter a obtain lg where
      "notify (reads_needed (drop 4096 bs)) d ?st1 =
         data_offer_destroy (?st1\<lparr>pipes := (pipes ?st1)(d := None), watched := watched ?st1 - {d},
                             io_log := lg\<rparr>)"
      by blast
    moreover have "notify (reads_needed bs) d st = notify (reads_needed (drop 4096 bs)) d ?st1"
      using False 1(4) by (simp add: reads_needed.simps[of bs] notify_Suc epoll_dispatch_def)
    ultimately have "notify (reads_needed bs) d st =
         data_offer_destroy (st\<lparr>pipes := (pipes st)(d := None), watched := watched st - {d},
                             io_log := lg\<rparr>)"
      by (simp add: st1)
    then show ?thesis by (rule exI)
  qed
qed

lemma receive_then_stream:
  fixes st :: client_io and bs p0 p1 m f u
  defines "st' \<equiv> notify (reads_needed bs) p0
                    (remote_write p0 bs (data_offer_receive_data (Some (p0, p1)) m f u st))"
  shows "refcount (offer st') = refcount (offer st)
       \<and> frees st' = (if refcount (offer st) = 0 then frees st + 1 else frees st)
       \<and> pipes st' = (pipes st)(p0 := None)
       \<and> watched st' = watched st - {p0}"
proof -
  let ?r = "data_offer_receive_data (Some (p0, p1)) m f u st"
  let ?w = "remote_write p0 bs ?r"
  have r: "fd (offer ?r) = p0" "pipes ?r = (pipes st)(p0 \<mapsto> [])"
    "watched ?r = insert p0 (watched st)"
    "refcount (offer ?r) = refcount (offer st) + 1" "frees ?r = frees st"
    by (simp_all add: data_offer_receive_data_def pipe2_def display_watch_fd_def Let_def)
  have w: "fd (offer ?w) = p0" "pipes ?w = (pipes st)(p0 \<mapsto> bs)"
    "watched ?w = insert p0 (watched st)"
    "refcount (offer ?w) = refcount (offer st) + 1" "frees ?w = frees st"
    using r by (simp_all add: remote_write_def)
  have "pipes ?w p0 = Some bs" "p0 \<in> watched ?w" using w by simp_all
  with w(1) obtain lg where
    "notify (reads_needed bs) p0 ?w =
       data_offer_destroy (?w\<lparr>pipes := (pipes ?w)(p0 := None), watched := watched ?w - {p0},
                               io_log := lg\<rparr>)"
    using stream_read_to_end[of ?w p0 bs] by blast
  then have "st' = data_offer_destroy (?w\<lparr>pipes := (pipes ?w)(p0 := None),
                      watched := watched ?w - {p0}, io_log := lg\<rparr>)"
    by (simp add: st'_def)
  then show ?thesis
    using w by (simp add: data_offer_destroy_def Let_def)
qed

lemma sequential_receives_stages:
  fixes g :: data_offer and p0 p1 q0 q1 m1 m2 f1 f2 u1 u2 bs1 bs2
  defines "s1 \<equiv> data_offer_receive_data (Some (p0, p1)) m1 f1 u1 (new_offer_state g)"
  defines "s2 \<equiv> notify (reads_needed bs1) p0 (remote_write p0 bs1 s1)"
  defines "s3 \<equiv> data_offer_receive_data (Some (q0, q1)) m2 f2 u2 s2"
  defines "s4 \<equiv> notify (reads_needed bs2) q0 (remote_write q0 bs2 s3)"
  defines "s5 \<equiv> data_offer_destroy s4"
  shows "refcount (offer s1) = 2 \<and> refcount (offer s2) = 1 \<and> frees s2 = 0
       \<and> refcount (offer s3) = 2 \<and> refcount (offer s4) = 1 \<and> frees s4 = 0
       \<and> refcount (offer s5) = 0 \<and> frees s5 = 1 \<and> pipes s5 = Map.empty \<and> watched s5 = {}"
proof -
  let ?n = "new_offer_state g"
  have n: "refcount (offer ?n) = 1" "frees ?n = 0" "pipes ?n = Map.empty" "watched ?n = {}"
    by (simp_all add: new_offer_state_def data_device_data_offer_def)
  have s1: "refcount (offer s1) = 2"
    using n by (simp add: s1_def data_offer_receive_data_def pipe2_def display_watch_fd_def Let_def)
  have s2: "refcount (offer s2) = 1" "frees s2 = 0" "pipes s2 = Map.empty" "watched s2 = {}"
    using receive_then_stream[of bs1 p0 p1 m1 f1 u1 ?n] n by (simp_all add: s2_def s1_def)
  have s3: "refcount (offer s3) = 2"
    using s2 by (simp add: s3_def data_offer_receive_data_def pipe2_def display_watch_fd_def Let_def)
  have s4: "refcount (offer s4) = 1" "frees s4 = 0" "pipes s4 = Map.empty" "watched s4 = {}"
    using receive_then_stream[of bs2 q0 q1 m2 f2 u2 s2] s2 by (simp_all add: s4_def s3_def)
  have s5: "refcount (offer s5) = 0" "frees s5 = 1" "pipes s5 = Map.empty" "watched s5 = {}"
    using s4 by (simp_all add: s5_def data_offer_destroy_def Let_def)
  show ?thesis using s1 s2 s3 s4 s5 by simp
qed

text \<open>
  Claim C4, as the code has it. A receive whose pipe was created takes exactly one
  reference, and a read of length zero on the offer's descriptor releases exactly one.
  When the receives follow one another (the first stream is read to its end before the
  second receive is issued), a fresh offer that served two receives and was then
  released by its device has been freed exactly once, with no pipe left open and no
  descriptor left registered. \<open>bs1\<close> and \<open>bs2\<close> are the bytes of the two streams, of
  any length.
\<close>

theorem sequential_receives_free_once:
  "refcount (offer (data_offer_receive_data (Some (a, b)) m f u st)) = refcount (offer st) + 1
   \<and> (pipes st' (fd (offer st')) = Some [] \<longrightarrow>
        refcount (offer (offer_io_func st')) = refcount (offer st') - 1)
   \<and> (let s1 = data_offer_receive_data (Some (p0, p1)) m1 f1 u1 (new_offer_state g);
           s2 = notify (reads_needed bs1) p0 (remote_write p0 bs1 s1);
           s3 = data_offer_receive_data (Some (q0, q1)) m2 f2 u2 s2;
           s4 = notify (reads_needed bs2) q0 (remote_write q0 bs2 s3);
           s5 = data_offer_destroy s4
       in refcount (offer s1) = 2 \<and> refcount (offer s2) = 1 \<and> frees s2 = 0
        \<and> refcount (offer s3) = 2 \<and> refcount (offer s4) = 1 \<and> frees s4 = 0
        \<and> refcount (offer s5) = 0 \<and> frees s5 = 1 \<and> pipes s5 = Map.empty \<and> watched s5 = {})"
proof -
  have inc: "refcount (offer (data_offer_receive_data (Some (a, b)) m f u st))
               = refcount (offer st) + 1"
    by (simp add: data_offer_receive_data_def pipe2_def display_watch_fd_def Let_def)
  have dec: "pipes st' (fd (offer st')) = Some [] \<longrightarrow>
        refcount (offer (offer_io_func st')) = refcount (offer st') - 1"
    by (simp add: offer_io_func_eof data_offer_destroy_def Let_def)
  show ?thesis
    unfolding Let_def
    using inc dec sequential_receives_stages[of p0 p1 m1 f1 u1 g bs1 q0 q1 m2 f2 u2 bs2] by blast
qed

lemma reads_needed_examples: "reads_needed [1, 2] = 2" "reads_needed [3] = 2"
  by (simp_all add: reads_needed.simps)

theorem sequential_receives_free_once_witness:
  "pipes (remote_write 5 [] (data_offer_receive_data (Some (5, 6)) ''text/plain'' 1 0
            (new_offer_state garbage0))) 5 = Some []
   \<and> refcount (offer (offer_io_func
        (remote_write 5 [] (data_offer_receive_data (Some (5, 6)) ''text/plain'' 1 0
            (new_offer_state garbage0))))) = 1
   \<and> frees (data_offer_destroy
        (notify 2 5 (remote_write 5 [3]
           (data_offer_receive_data (Some (5, 6)) ''text/html'' 2 0
              (notify 2 5 (remote_write 5 [1, 2]
                 (data_offer_receive_data (Some (5, 6)) ''text/plain'' 1 0
                    (new_offer_state garbage0)))))))) = 1"
proof -
  let ?st0 = "remote_write 5 [] (data_offer_receive_data (Some (5, 6)) ''text/plain'' 1 0
            (new_offer_state garbage0))"
  note t = sequential_receives_free_once
    [where st' = ?st0
       and g = garbage0 and ?p0.0 = 5 and ?p1.0 = 6 and ?q0.0 = 5 and ?q1.0 = 6
       and ?m1.0 = "''text/plain''" and ?m2.0 = "''text/html''" and ?f1.0 = 1 and ?f2.0 = 2
       and ?u1.0 = 0 and ?u2.0 = 0 and ?bs1.0 = "[1, 2]" and ?bs2.0 = "[3]"]
  have h: "pipes ?st0 (fd (offer ?st0)) = Some []" and h5: "fd (offer ?st0) = 5"
    and r: "refcount (offer ?st0) = 2"
    by (simp_all add: new_offer_state_def garbage0_def data_device_data_offer_def
          data_offer_receive_data_def pipe2_def display_watch_fd_def remote_write_def)
  from t h have c2: "refcount (offer (offer_io_func ?st0)) = refcount (offer ?st0) - 1"
    by blast
  from t have c3: "frees (data_offer_destroy
        (notify 2 5 (remote_write 5 [3]
           (data_offer_receive_data (Some (5, 6)) ''text/html'' 2 0
              (notify 2 5 (remote_write 5 [1, 2]
                 (data_offer_receive_data (Some (5, 6)) ''text/plain'' 1 0
                    (new_offer_state garbage0)))))))) = 1"
    by (simp only: Let_def reads_needed_examples)
  show ?thesis using h h5 c2 r c3 by simp
qed

text \<open>
  Claim C4 as stated fails for receives in flight at the same time. The second receive
  overwrote the offer's descriptor, so every notification reads the second pipe: its end
  releases one reference, the first pipe is never read, and later notifications for it
  read the closed descriptor (\<^verbatim>\<open>len\<close> is then \<open>- 1\<close> as a 32-bit word, that is
  \<open>2 ^ 32 - 1\<close>, not \<open>0\<close>). After both
  streams were written and closed and after the device released its reference, the offer
  still has a reference, was never freed, and the first pipe is open and registered.
\<close>

theorem concurrent_receives_leak:
  "(let st = data_offer_destroy (notify 3 5 (notify 2 6 (notify 1 5 two_receives_in_flight)))
    in frees st = 0 \<and> refcount (offer st) = 1 \<and> pipes st 5 = Some [1, 2] \<and> 5 \<in> watched st
     \<and> pipes st 6 = None
     \<and> io_log st = [Wl_data_offer_receive ''text/plain'' 6, Close 6,
                     Wl_data_offer_receive ''text/html'' 7, Close 7,
                     Func 2 [3] 1 0 0 0, Func 2 [] 0 0 0 0, Close 6,
                     Func 2 [] (- 1) 0 0 0, Func 2 [] (- 1) 0 0 0, Func 2 [] (- 1) 0 0 0])"
  by (simp add: two_receives_in_flight_def new_offer_state_def garbage0_def data_device_data_offer_def
      data_offer_receive_data_def pipe2_def display_watch_fd_def remote_write_def notify_def
      epoll_dispatch_def offer_io_func_def read_fd_def close_fd_def data_offer_destroy_def
      Let_def numeral_3_eq_3 numeral_2_eq_2)




text \<open>
  Claim C8. When \<^verbatim>\<open>pipe2\<close> fails, \<^verbatim>\<open>data_offer_receive_data\<close> returns with
  everything as it was: the reference count, the epoll interest list, the open
  descriptors, and the log of what was sent to the far side.
\<close>

theorem receive_without_pipe_changes_nothing:
  "data_offer_receive_data None mime_type f ud st = st"
  by (simp add: data_offer_receive_data_def)

section \<open>Properties of the event loop\<close>

text \<open>
  The inner loop runs the tasks that were in the list when it started, the oldest first,
  and after them the tasks deferred while it ran, in the order they were deferred; when
  it ends the list is empty.
\<close>

lemma run_deferred_tasks_fifo:
  assumes "\<And>t. only_defers (run t 0)"
  shows "run_deferred_tasks run n d = Continue d1 \<Longrightarrow>
         deferred_list d1 = [] \<and>
         (\<exists>new. defer_log d1 = defer_log d @ new
              \<and> run_log d1 = run_log d @ rev (deferred_list d) @ new)"
proof (induction n arbitrary: d)
  case 0
  then show ?case by (auto split: if_splits)
next
  case (Suc n)
  show ?case
  proof (cases "deferred_list d = []")
    case True
    with Suc.prems show ?thesis by auto
  next
    case False
    define task where "task = last (deferred_list d)"
    define dp where
      "dp = d\<lparr>deferred_list := butlast (deferred_list d), run_log := run_log d @ [task]\<rparr>"
    from Suc.prems False obtain d2 where
      r: "run task 0 dp = Inr d2" and rest: "run_deferred_tasks run n d2 = Continue d1"
      by (auto simp add: Let_def task_def dp_def split: sum.splits)
    from assms r obtain ts where
      ts: "deferred_list d2 = rev ts @ deferred_list dp" "defer_log d2 = defer_log dp @ ts"
          "run_log d2 = run_log dp"
      unfolding only_defers_def by blast
    from Suc.IH[OF rest] obtain new where
      e: "deferred_list d1 = []" "defer_log d1 = defer_log d2 @ new"
         "run_log d1 = run_log d2 @ rev (deferred_list d2) @ new"
      by blast
    have "rev (butlast (deferred_list d) @ [task]) = rev (deferred_list d)"
      using False by (simp add: task_def)
    then have rv: "rev (deferred_list d) = task # rev (butlast (deferred_list d))"
      by simp
    have "run_log d1 = (run_log d @ [task]) @ rev (rev ts @ butlast (deferred_list d)) @ new"
      using e(3) ts by (simp add: dp_def)
    also have "\<dots> = run_log d @ (task # rev (butlast (deferred_list d))) @ (ts @ new)"
      by simp
    also have "\<dots> = run_log d @ rev (deferred_list d) @ (ts @ new)"
      by (simp only: rv)
    finally have "run_log d1 = run_log d @ rev (deferred_list d) @ (ts @ new)" .
    moreover have "defer_log d1 = defer_log d @ (ts @ new)"
      using e(2) ts by (simp add: dp_def)
    ultimately show ?thesis using e(1) by blast
  qed
qed

text \<open>
  Fuel beyond what the loop needs changes nothing, and the loop ends within as many steps
  as the list is long when the tasks defer no further task.
\<close>

lemma run_deferred_tasks_more_fuel:
  "run_deferred_tasks run n d = Continue d1 \<Longrightarrow> run_deferred_tasks run (n + k) d = Continue d1"
proof (induction n arbitrary: d)
  case 0
  then have "deferred_list d = []" "d1 = d" by (auto split: if_splits)
  then show ?case by (cases k) simp_all
next
  case (Suc n)
  show ?case
  proof (cases "deferred_list d = []")
    case True
    with Suc.prems show ?thesis by simp
  next
    case False
    with Suc.prems Suc.IH show ?thesis
      by (auto simp add: Let_def split: sum.splits)
  qed
qed

lemma run_deferred_tasks_ends_without_new_tasks:
  assumes "\<And>t d. \<exists>d'. run t 0 d = Inr d' \<and> deferred_list d' = deferred_list d"
  shows "\<exists>d1. run_deferred_tasks run (length (deferred_list d)) d = Continue d1"
proof (induction "length (deferred_list d)" arbitrary: d)
  case 0
  then show ?case by simp
next
  case (Suc n)
  then have ne: "deferred_list d \<noteq> []" by auto
  define task where "task = last (deferred_list d)"
  define dp where
    "dp = d\<lparr>deferred_list := butlast (deferred_list d), run_log := run_log d @ [task]\<rparr>"
  from assms obtain d2 where
    r: "run task 0 dp = Inr d2" and l: "deferred_list d2 = deferred_list dp"
    by blast
  have "n = length (deferred_list d2)"
    using Suc.hyps(2) l by (simp add: dp_def)
  from Suc.hyps(1)[OF this] obtain d1 where
    "run_deferred_tasks run (length (deferred_list d2)) d2 = Continue d1" by blast
  moreover have "length (deferred_list d2) = n"
    using Suc.hyps(2) l by (simp add: dp_def)
  ultimately have "run_deferred_tasks run (Suc n) d = Continue d1"
    using ne r by (simp add: Let_def task_def dp_def)
  then show ?case using Suc.hyps(2) by auto
qed

text \<open>
  Claim C1, as the code has it. Let the callbacks touch the deferred list through
  \<^verbatim>\<open>display_defer\<close> only, and let a pass of \<^verbatim>\<open>display_run\<close> reach \<^verbatim>\<open>epoll_wait\<close> in
  the state \<open>dw\<close>. Then the inner loop ended, in a state \<open>d1\<close> with an empty list, and
  it ran exactly the tasks deferred until then, each once for each time it was deferred
  and in the order of deferral: first those queued when the pass began, oldest first, then
  those deferred by tasks during the loop (\<open>during\<close>); when the history at the start
  agrees with the list, the tasks run are the tasks deferred. Nothing more is run before
  \<^verbatim>\<open>epoll_wait\<close>; the tasks that listeners called by \<^verbatim>\<open>wl_display_dispatch_pending\<close>
  deferred after the loop (\<open>after\<close>) are in the list when \<^verbatim>\<open>epoll_wait\<close> is called.
\<close>

theorem deferred_tasks_run_fifo_before_wait:
  assumes "\<And>t. only_defers (run t 0)"
    and "only_defers pending"
    and "display_run_to_wait run pending fl n d = Continue dw"
  shows "\<exists>d1 during after.
           run_deferred_tasks run n d = Continue d1
         \<and> deferred_list d1 = []
         \<and> defer_log d1 = defer_log d @ during
         \<and> run_log d1 = run_log d @ rev (deferred_list d) @ during
         \<and> (defer_log d = run_log d @ rev (deferred_list d) \<longrightarrow> run_log d1 = defer_log d1)
         \<and> run_log dw = run_log d1
         \<and> defer_log dw = defer_log d1 @ after
         \<and> deferred_list dw = rev after"
proof -
  from assms(3) obtain d1 d2 where
    d1: "run_deferred_tasks run n d = Continue d1" and d2: "pending d1 = Inr d2"
    and dw: "dw = d2 \<or> dw = d2\<lparr>display_fd_interest := 0x1D\<rparr>"
    by (auto simp add: display_run_to_wait_def
        split: stage.splits sum.splits if_splits flush_result.splits)
  from run_deferred_tasks_fifo[OF assms(1) d1] obtain during where
    a: "deferred_list d1 = []" "defer_log d1 = defer_log d @ during"
       "run_log d1 = run_log d @ rev (deferred_list d) @ during"
    by blast
  from assms(2) d2 obtain after where
    b: "deferred_list d2 = rev after @ deferred_list d1" "defer_log d2 = defer_log d1 @ after"
       "run_log d2 = run_log d1"
    unfolding only_defers_def by blast
  have c: "defer_log d = run_log d @ rev (deferred_list d) \<longrightarrow> run_log d1 = defer_log d1"
    using a by simp
  have "run_log dw = run_log d1" "defer_log dw = defer_log d1 @ after" "deferred_list dw = rev after"
    using dw a(1) b by auto
  with d1 a c show ?thesis by blast
qed

lemma only_defers_run_example: "only_defers (run_example t ev)"
  unfolding only_defers_def
proof (intro allI impI)
  fix d d' :: "nat display"
  assume a: "run_example t ev d = Inr d'"
  show "\<exists>ts. deferred_list d' = rev ts @ deferred_list d \<and> defer_log d' = defer_log d @ ts
             \<and> run_log d' = run_log d"
  proof (cases "t = 1")
    case True
    with a have "d' = display_defer (display_defer d 3) 4" by (simp add: run_example_def)
    then have "deferred_list d' = rev [3, 4] @ deferred_list d \<and> defer_log d' = defer_log d @ [3, 4]
             \<and> run_log d' = run_log d"
      by (simp add: display_defer_def)
    then show ?thesis by (rule exI)
  next
    case False
    with a have "d' = d" by (simp add: run_example_def)
    then have "deferred_list d' = rev [] @ deferred_list d \<and> defer_log d' = defer_log d @ []
             \<and> run_log d' = run_log d"
      by simp
    then show ?thesis by (rule exI)
  qed
qed

lemma only_defers_Inr: "only_defers Inr"
  by (simp add: only_defers_def)

lemma run_example_to_wait:
  "display_run_to_wait run_example Inr Flush_ok 10
     \<lparr>deferred_list = [2, 1], running = True, display_fd_interest = 0x19,
      defer_log = [1, 2], run_log = []\<rparr>
   = Continue \<lparr>deferred_list = [], running = True, display_fd_interest = 0x19,
               defer_log = [1, 2, 3, 4], run_log = [1, 2, 3, 4]\<rparr>"
  by (simp add: display_run_to_wait_def run_example_def display_defer_def Let_def numeral_eq_Suc)

text \<open>
  On a display where task 1 was deferred before task 2, and task 1 defers the tasks 3
  and 4 when it runs, the pass runs 1, 2, 3, 4 and reaches \<^verbatim>\<open>epoll_wait\<close> with an
  empty list.
\<close>

theorem deferred_tasks_run_fifo_before_wait_witness:
  "(\<forall>t. only_defers (run_example t 0))
   \<and> only_defers (Inr :: nat display \<Rightarrow> halt + nat display)
   \<and> display_run_to_wait run_example Inr Flush_ok 10
        \<lparr>deferred_list = [2, 1], running = True, display_fd_interest = 0x19,
         defer_log = [1, 2], run_log = []\<rparr>
      = Continue \<lparr>deferred_list = [], running = True, display_fd_interest = 0x19,
                  defer_log = [1, 2, 3, 4], run_log = [1, 2, 3, 4]\<rparr>
   \<and> (\<exists>d1 during after.
         run_deferred_tasks run_example 10
           \<lparr>deferred_list = [2, 1], running = True, display_fd_interest = 0x19,
            defer_log = [1, 2], run_log = []\<rparr> = Continue d1
       \<and> deferred_list d1 = [] \<and> defer_log d1 = [1, 2] @ during
       \<and> run_log d1 = [] @ rev [2, 1] @ during
       \<and> run_log d1 = defer_log d1
       \<and> [1, 2, 3, 4] = run_log d1 \<and> [1, 2, 3, 4] = defer_log d1 @ after \<and> [] = rev after)"
proof -
  have h1: "\<And>t. only_defers (run_example t 0)" by (rule only_defers_run_example)
  have h2: "only_defers (Inr :: nat display \<Rightarrow> halt + nat display)" by (rule only_defers_Inr)
  note h3 = run_example_to_wait
  show ?thesis
    using deferred_tasks_run_fifo_before_wait [OF h1 h2 h3] h1 h2 h3 by simp
qed

section \<open>Properties of the redraw scheduler\<close>

text \<open>
  A relation that every step keeps is kept by a loop over the surfaces, and by
  \<^verbatim>\<open>surface_redraw\<close> when its three effects keep it.
\<close>

lemma fold_rel:
  assumes refl: "\<And>d. R d d" and trans: "\<And>a b c. R a b \<Longrightarrow> R b c \<Longrightarrow> R a c"
    and step: "\<And>t d. R d (F t d)"
  shows "R d (fold F ts d)"
proof (induction ts arbitrary: d)
  case Nil
  show ?case by (simp add: refl)
next
  case (Cons t ts)
  have "R d (F t d)" by (rule step)
  moreover have "R (F t d) (fold F ts (F t d))" by (rule Cons.IH)
  ultimately show ?case using trans by auto
qed

lemma surface_redraw_rel:
  fixes R :: "toolkit \<Rightarrow> toolkit \<Rightarrow> bool"
  assumes refl: "\<And>d. R d d" and trans: "\<And>a b c. R a b \<Longrightarrow> R b c \<Longrightarrow> R a c"
    and destroy: "\<And>d cb. R d (send (Destroy_callback t cb) d)"
    and acquire: "\<And>d. R d (widget_get_cairo_surface env t d)"
    and paint: "\<And>d cb. R d (widget_redraw t
                  (surf_update t (\<lambda>sf. sf\<lparr>frame_cb := Some cb, redraw_needed := False\<rparr>)
                     (send (Frame t cb) (d\<lparr>next_callback := cb + 1\<rparr>))))"
  shows "R d (snd (surface_redraw env t d))"
proof -
  define d1 where "d1 = (case frame_cb (surf d t) of
                     Some cb \<Rightarrow> send (Destroy_callback t cb) d
                   | None \<Rightarrow> d)"
  define d2 where "d2 = (if use_cairo (surf d1 t) then widget_get_cairo_surface env t d1 else d1)"
  define d5 where "d5 = widget_redraw t
                  (surf_update t (\<lambda>sf. sf\<lparr>frame_cb := Some (next_callback d2), redraw_needed := False\<rparr>)
                     (send (Frame t (next_callback d2)) (d2\<lparr>next_callback := next_callback d2 + 1\<rparr>)))"
  have e: "surface_redraw env t d =
     (if \<not> window_redraw_needed (win d) \<and> \<not> redraw_needed (surf d t) then (0, d)
      else if frame_cb (surf d t) \<noteq> None \<and> \<not> window_redraw_needed (win d) then (0, d)
      else if use_cairo (surf d1 t) \<and> cairo_surface (surf d2 t) = None then (- 1, d2)
      else (0, d5))"
    by (simp only: surface_redraw_def Let_def d5_def d2_def d1_def)
  have k1: "R d d1"
    unfolding d1_def by (cases "frame_cb (surf d t)") (simp_all add: refl destroy)
  have k2: "R d1 d2"
    unfolding d2_def by (simp add: refl acquire)
  have k5: "R d2 d5"
    unfolding d5_def by (rule paint)
  have "R d d2" using k1 k2 trans by blast
  moreover have "R d d5" using k1 k2 k5 trans by blast
  ultimately show ?thesis
    unfolding e using refl by simp
qed

lemma window_kept_refl: "window_kept d d"
  by (simp add: window_kept_def)

lemma window_kept_trans: "window_kept a b \<Longrightarrow> window_kept b c \<Longrightarrow> window_kept a c"
  by (simp add: window_kept_def)

lemma drawable_kept_refl: "drawable_kept s d d"
  by (simp add: drawable_kept_def)

lemma drawable_kept_trans: "drawable_kept s a b \<Longrightarrow> drawable_kept s b c \<Longrightarrow> drawable_kept s a c"
  by (simp add: drawable_kept_def)

lemma resize_kept_refl: "resize_kept s d d"
  by (simp add: resize_kept_def window_kept_refl drawable_kept_refl)

lemma resize_kept_trans: "resize_kept s a b \<Longrightarrow> resize_kept s b c \<Longrightarrow> resize_kept s a c"
  unfolding resize_kept_def using window_kept_trans drawable_kept_trans by metis

lemma resize_kept_mark: "resize_kept s d (surf_update t (\<lambda>sf. sf\<lparr>redraw_needed := True\<rparr>) d)"
  by (simp add: resize_kept_def window_kept_def drawable_kept_def surf_def surf_update_def)

lemma resize_kept_schedule_task: "resize_kept s d (window_schedule_redraw_task d)"
  by (simp add: resize_kept_def window_kept_def drawable_kept_def surf_def
        window_schedule_redraw_task_def display_defer_def)

lemma resize_kept_schedule: "resize_kept s d (window_schedule_redraw d)"
proof -
  have "resize_kept s d (fold (\<lambda>t. surf_update t (\<lambda>sf. sf\<lparr>redraw_needed := True\<rparr>))
                           (subsurface_list (win d)) d)"
    by (rule fold_rel[where R = "resize_kept s"])
       (auto intro: resize_kept_refl resize_kept_trans resize_kept_mark)
  then show ?thesis
    unfolding window_schedule_redraw_def
    using resize_kept_schedule_task resize_kept_trans by blast
qed

lemma resize_kept_synchronized: "resize_kept s d (surface_set_synchronized t d)"
  by (simp add: resize_kept_def window_kept_def drawable_kept_def surf_def
        surface_set_synchronized_def surf_update_def send_def)


lemma resize_kept_surface_resize: "resize_kept s d (surface_resize env t d)"
proof -
  define handled where "handled = resize_handler env t (width (widget_allocation (surf d t)))
        (height (widget_allocation (surf d t))) (\<lambda>u. widget_allocation (surf d u))"
  define d1 where "d1 = d\<lparr>win := (win d)\<lparr>surfaces :=
                  (\<lambda>u. (surfaces (win d) u)\<lparr>widget_allocation := handled u\<rparr>)\<rparr>\<rparr>"
  define d2 where "d2 = (if subsurface (surf d1 t) \<and>
                   (rect_x (allocation (surf d1 t)) \<noteq> rect_x (widget_allocation (surf d1 t)) \<or>
                    rect_y (allocation (surf d1 t)) \<noteq> rect_y (widget_allocation (surf d1 t)))
                then send (Set_position t (rect_x (widget_allocation (surf d1 t)))
                             (rect_y (widget_allocation (surf d1 t)))) d1
                else d1)"
  define d3 where "d3 = (if width (allocation (surf d1 t)) \<noteq> width (widget_allocation (surf d1 t)) \<or>
                   height (allocation (surf d1 t)) \<noteq> height (widget_allocation (surf d1 t))
                then window_schedule_redraw d2
                else d2)"
  have e: "surface_resize env t d = surf_update t (\<lambda>sf. sf\<lparr>allocation := widget_allocation sf\<rparr>) d3"
    unfolding surface_resize_def Let_def d3_def d2_def d1_def handled_def by (rule refl)
  have k1: "resize_kept s d d1"
    by (simp add: d1_def resize_kept_def window_kept_def drawable_kept_def surf_def)
  have k2: "resize_kept s d1 d2"
    by (simp add: d2_def resize_kept_def window_kept_def drawable_kept_def surf_def send_def)
  have k3: "resize_kept s d2 d3"
    by (simp add: d3_def resize_kept_schedule resize_kept_refl)
  have k4: "resize_kept s d3 (surf_update t (\<lambda>sf. sf\<lparr>allocation := widget_allocation sf\<rparr>) d3)"
    by (simp add: resize_kept_def window_kept_def drawable_kept_def surf_def surf_update_def)
  show ?thesis
    unfolding e using k1 k2 k3 k4 resize_kept_trans by blast
qed


lemma resize_kept_window_do_resize: "resize_kept s d (window_do_resize env d)"
proof -
  define m where "m = main_surface (win d)"
  define d1 where "d1 = surf_update m (\<lambda>sf. sf\<lparr>widget_allocation := pending_allocation (win d)\<rparr>) d"
  define d2 where "d2 = surface_resize env m d1"
  define d3 where "d3 = fold (\<lambda>t d'. if t = m then d'
                             else surface_resize env t (surface_set_synchronized t d'))
                 (subsurface_list (win d2)) d2"
  have e: "window_do_resize env d =
      (if \<not> fullscreen (win d3) \<and> \<not> maximized (win d3)
         then d3\<lparr>win := (win d3)\<lparr>saved_allocation := pending_allocation (win d3)\<rparr>\<rparr>
         else d3)"
    unfolding window_do_resize_def Let_def d3_def d2_def d1_def m_def by (rule refl)
  have k1: "resize_kept s d d1"
    by (simp add: d1_def resize_kept_def window_kept_def drawable_kept_def surf_def surf_update_def)
  have k2: "resize_kept s d1 d2"
    by (simp add: d2_def resize_kept_surface_resize)
  have step: "\<And>t d'. resize_kept s d' (if t = m then d'
                             else surface_resize env t (surface_set_synchronized t d'))"
  proof -
    fix t d'
    show "resize_kept s d' (if t = m then d'
                             else surface_resize env t (surface_set_synchronized t d'))"
    proof (cases "t = m")
      case True
      then show ?thesis by (simp add: resize_kept_refl)
    next
      case False
      have "resize_kept s d' (surface_set_synchronized t d')"
        by (rule resize_kept_synchronized)
      moreover have "resize_kept s (surface_set_synchronized t d')
                       (surface_resize env t (surface_set_synchronized t d'))"
        by (rule resize_kept_surface_resize)
      ultimately show ?thesis using False resize_kept_trans by auto
    qed
  qed
  have k3: "resize_kept s d2 d3"
    unfolding d3_def
    by (rule fold_rel[where R = "resize_kept s", OF resize_kept_refl resize_kept_trans step])
  have k4: "resize_kept s d3 (if \<not> fullscreen (win d3) \<and> \<not> maximized (win d3)
         then d3\<lparr>win := (win d3)\<lparr>saved_allocation := pending_allocation (win d3)\<rparr>\<rparr>
         else d3)"
    by (simp add: resize_kept_def window_kept_def drawable_kept_def surf_def)
  show ?thesis
    unfolding e using k1 k2 k3 k4 resize_kept_trans by blast
qed










lemma undrawn_refl: "undrawn s d d"
  by (simp add: undrawn_def)

lemma undrawn_trans: "undrawn s a b \<Longrightarrow> undrawn s b c \<Longrightarrow> undrawn s a c"
  by (simp add: undrawn_def)

lemma surface_redraw_throttled:
  "frame_cb (surf d s) \<noteq> None \<Longrightarrow> \<not> window_redraw_needed (win d) \<Longrightarrow>
   surface_redraw env s d = (0, d)"
  by (simp add: surface_redraw_def)

lemma undrawn_surface_redraw_other:
  assumes "t \<noteq> s"
  shows "undrawn s d (snd (surface_redraw env t d))"
proof (rule surface_redraw_rel[where R = "undrawn s" and t = t and env = env])
  show "\<And>d. undrawn s d d" by (rule undrawn_refl)
  show "\<And>a b c. undrawn s a b \<Longrightarrow> undrawn s b c \<Longrightarrow> undrawn s a c"
    by (rule undrawn_trans)
  show "\<And>d cb. undrawn s d (send (Destroy_callback t cb) d)"
    by (simp add: undrawn_def send_def surf_def)
  show "\<And>d. undrawn s d (widget_get_cairo_surface env t d)"
    using assms by (simp add: undrawn_def widget_get_cairo_surface_def surf_update_def surf_def)
  show "\<And>d cb. undrawn s d (widget_redraw t
                  (surf_update t (\<lambda>sf. sf\<lparr>frame_cb := Some cb, redraw_needed := False\<rparr>)
                     (send (Frame t cb) (d\<lparr>next_callback := cb + 1\<rparr>))))"
    using assms by (simp add: undrawn_def widget_redraw_def send_def surf_update_def surf_def)
qed

lemma held_refl: "held s d d"
  by (simp add: held_def undrawn_refl)

lemma held_trans: "held s a b \<Longrightarrow> held s b c \<Longrightarrow> held s a c"
  unfolding held_def using undrawn_trans by blast

lemma undrawn_throttled: "undrawn s d d' \<Longrightarrow> throttled s d \<Longrightarrow> throttled s d'"
  by (simp add: undrawn_def throttled_def)

lemma held_surface_redraw: "held s d (snd (surface_redraw env t d))"
proof (cases "t = s")
  case True
  show ?thesis
    unfolding held_def
  proof
    assume th: "throttled s d"
    then have "surface_redraw env s d = (0, d)"
      by (simp add: throttled_def surface_redraw_throttled)
    then show "throttled s (snd (surface_redraw env t d)) \<and> undrawn s d (snd (surface_redraw env t d))"
      using th True by (simp add: undrawn_refl)
  qed
next
  case False
  then show ?thesis
    unfolding held_def using undrawn_surface_redraw_other undrawn_throttled by blast
qed

lemma held_redraw_subsurfaces:
  "held s d (fold (\<lambda>t d'. if t = m then d' else snd (surface_redraw env t d')) ts d)"
proof (rule fold_rel[where R = "held s"
         and F = "\<lambda>t d'. if t = m then d' else snd (surface_redraw env t d')"])
  show "\<And>d. held s d d" by (rule held_refl)
  show "\<And>a b c. held s a b \<Longrightarrow> held s b c \<Longrightarrow> held s a c" by (rule held_trans)
  show "\<And>t d'. held s d' (if t = m then d' else snd (surface_redraw env t d'))"
    by (simp add: held_refl held_surface_redraw)
qed

lemma held_surface_flush: "held s d (surface_flush t d)"
proof (cases "t = s")
  case True
  show ?thesis
    unfolding held_def
  proof
    assume th: "throttled s d"
    then have "surface_flush s d = d" by (simp add: throttled_def surface_flush_def)
    then show "throttled s (surface_flush t d) \<and> undrawn s d (surface_flush t d)"
      using th True by (simp add: undrawn_refl)
  qed
next
  case False
  then have "undrawn s d (surface_flush t d)"
    by (simp add: surface_flush_def undrawn_def surf_def surf_update_def send_def split: option.splits)
  then show ?thesis
    unfolding held_def using undrawn_throttled by blast
qed

lemma held_window_flush: "held s d (window_flush d)"
proof -
  have "held s d (fold (\<lambda>t d'. if t = main_surface (win d) then d' else surface_flush t d')
                          (subsurface_list (win d)) d)"
  proof (rule fold_rel[where R = "held s"
           and F = "\<lambda>t d'. if t = main_surface (win d) then d' else surface_flush t d'"])
    show "\<And>d. held s d d" by (rule held_refl)
    show "\<And>a b c. held s a b \<Longrightarrow> held s b c \<Longrightarrow> held s a c" by (rule held_trans)
    show "\<And>t d'. held s d' (if t = main_surface (win d) then d' else surface_flush t d')"
      by (simp add: held_refl held_surface_flush)
  qed
  then show ?thesis
    unfolding window_flush_def Let_def
    using held_surface_flush held_trans by blast
qed

lemma held_sync_default: "held s d (surface_set_synchronized_default t d)"
proof -
  have "undrawn s d (surface_set_synchronized_default t d)"
    by (simp add: surface_set_synchronized_default_def undrawn_def surf_def surf_update_def send_def)
  then show ?thesis
    unfolding held_def using undrawn_throttled by blast
qed

lemma held_sync_defaults: "held s d (fold surface_set_synchronized_default ts d)"
proof (rule fold_rel[where R = "held s" and F = surface_set_synchronized_default])
  show "\<And>d. held s d d" by (rule held_refl)
  show "\<And>a b c. held s a b \<Longrightarrow> held s b c \<Longrightarrow> held s a c" by (rule held_trans)
  show "\<And>t d'. held s d' (surface_set_synchronized_default t d')" by (rule held_sync_default)
qed



lemma undo_resize_result:
  "undo_resize env d =
     (if width (server_allocation (surf d (main_surface (win d)))) = 0
         \<and> height (server_allocation (surf d (main_surface (win d)))) = 0
      then Inl Exit_failure
      else Inr (window_do_resize env
             (d\<lparr>win := (win d)\<lparr>pending_allocation := (pending_allocation (win d))
                \<lparr>width := width (server_allocation (surf d (main_surface (win d)))),
                 height := height (server_allocation (surf d (main_surface (win d))))\<rparr>\<rparr>\<rparr>)))"
proof -
  let ?d1 = "d\<lparr>win := (win d)\<lparr>pending_allocation := (pending_allocation (win d))
                \<lparr>width := width (server_allocation (surf d (main_surface (win d)))),
                 height := height (server_allocation (surf d (main_surface (win d))))\<rparr>\<rparr>\<rparr>"
  have "resize_kept 0 ?d1 (window_do_resize env ?d1)" by (rule resize_kept_window_do_resize)
  then have p: "pending_allocation (win (window_do_resize env ?d1)) = pending_allocation (win ?d1)"
    by (simp add: resize_kept_def window_kept_def)
  show ?thesis
    unfolding undo_resize_def Let_def p by simp
qed

text \<open>The window's own callbacks touch the deferred list through \<^verbatim>\<open>display_defer\<close> only.\<close>

lemma only_defers_iff: "only_defers f \<longleftrightarrow> (\<forall>d d'. f d = Inr d' \<longrightarrow> deferred_since d d')"
  by (simp add: only_defers_def deferred_since_def)

lemma deferred_since_refl: "deferred_since d d"
  unfolding deferred_since_def by (rule exI[of _ "[]"]) simp

lemma deferred_since_trans:
  assumes "deferred_since a b" "deferred_since b c"
  shows "deferred_since a c"
proof -
  from assms(1) obtain ts where
    1: "deferred_list b = rev ts @ deferred_list a" "defer_log b = defer_log a @ ts"
       "run_log b = run_log a"
    unfolding deferred_since_def by blast
  from assms(2) obtain us where
    2: "deferred_list c = rev us @ deferred_list b" "defer_log c = defer_log b @ us"
       "run_log c = run_log b"
    unfolding deferred_since_def by blast
  have "deferred_list c = rev (ts @ us) @ deferred_list a \<and> defer_log c = defer_log a @ (ts @ us)
      \<and> run_log c = run_log a"
    using 1 2 by simp
  then show ?thesis unfolding deferred_since_def by (rule exI)
qed

lemma deferred_since_same:
  "deferred_list d' = deferred_list d \<Longrightarrow> defer_log d' = defer_log d \<Longrightarrow> run_log d' = run_log d
   \<Longrightarrow> deferred_since d d'"
  unfolding deferred_since_def by (rule exI[of _ "[]"]) simp

lemma deferred_since_defer: "deferred_since d (display_defer d t)"
  unfolding deferred_since_def by (rule exI[of _ "[t]"]) (simp add: display_defer_def)

lemma deferred_since_schedule_task: "deferred_since d (window_schedule_redraw_task d)"
proof (cases "redraw_task_scheduled (win d)")
  case True
  then show ?thesis by (simp add: window_schedule_redraw_task_def deferred_since_refl)
next
  case False
  have "deferred_since d (display_defer d Redraw_task)" by (rule deferred_since_defer)
  moreover have "deferred_since (display_defer d Redraw_task)
      ((display_defer d Redraw_task)\<lparr>win := (win d)\<lparr>redraw_task_scheduled := True\<rparr>\<rparr>)"
    by (rule deferred_since_same) simp_all
  ultimately show ?thesis
    using False deferred_since_trans by (simp add: window_schedule_redraw_task_def) blast
qed

lemma deferred_since_surf_update: "deferred_since d (surf_update s f d)"
  by (rule deferred_since_same) (simp_all add: surf_update_def)

lemma deferred_since_send: "deferred_since d (send r d)"
  by (rule deferred_since_same) (simp_all add: send_def)

lemma deferred_since_schedule: "deferred_since d (window_schedule_redraw d)"
proof -
  have "deferred_since d (fold (\<lambda>t. surf_update t (\<lambda>sf. sf\<lparr>redraw_needed := True\<rparr>))
                           (subsurface_list (win d)) d)"
  proof (rule fold_rel[where R = deferred_since
           and F = "\<lambda>t. surf_update t (\<lambda>sf. sf\<lparr>redraw_needed := True\<rparr>)"])
    show "\<And>d :: toolkit. deferred_since d d" by (rule deferred_since_refl)
    show "\<And>a b c :: toolkit. deferred_since a b \<Longrightarrow> deferred_since b c \<Longrightarrow> deferred_since a c"
      by (rule deferred_since_trans)
    show "\<And>t d'. deferred_since d' (surf_update t (\<lambda>sf. sf\<lparr>redraw_needed := True\<rparr>) d')"
      by (rule deferred_since_surf_update)
  qed
  then show ?thesis
    unfolding window_schedule_redraw_def
    using deferred_since_schedule_task deferred_since_trans by blast
qed

lemma deferred_since_frame_callback: "only_defers (frame_callback s cb time)"
  unfolding only_defers_iff
proof (intro allI impI)
  fix d d'
  assume a: "frame_callback s cb time d = Inr d'"
  define d2 where "d2 = surf_update s (\<lambda>sf. sf\<lparr>frame_cb := None, last_time := time\<rparr>)
                          (send (Destroy_callback s cb) d)"
  have k: "deferred_since d d2"
    unfolding d2_def using deferred_since_send deferred_since_surf_update deferred_since_trans by blast
  from a have "d' = d2 \<or> d' = window_schedule_redraw_task d2"
    by (auto simp add: frame_callback_def Let_def d2_def split: if_splits)
  then show "deferred_since d d'"
    using k deferred_since_schedule_task deferred_since_trans by blast
qed


lemma deferred_since_synchronized: "deferred_since d (surface_set_synchronized t d)"
  by (rule deferred_since_same)
     (simp_all add: surface_set_synchronized_def surf_update_def send_def)

lemma deferred_since_synchronized_default:
  "deferred_since d (surface_set_synchronized_default t d)"
  by (rule deferred_since_same)
     (simp_all add: surface_set_synchronized_default_def surf_update_def send_def)

lemma deferred_since_surface_resize: "deferred_since d (surface_resize env t d)"
proof -
  define handled where "handled = resize_handler env t (width (widget_allocation (surf d t)))
        (height (widget_allocation (surf d t))) (\<lambda>u. widget_allocation (surf d u))"
  define d1 where "d1 = d\<lparr>win := (win d)\<lparr>surfaces :=
                  (\<lambda>u. (surfaces (win d) u)\<lparr>widget_allocation := handled u\<rparr>)\<rparr>\<rparr>"
  define d2 where "d2 = (if subsurface (surf d1 t) \<and>
                   (rect_x (allocation (surf d1 t)) \<noteq> rect_x (widget_allocation (surf d1 t)) \<or>
                    rect_y (allocation (surf d1 t)) \<noteq> rect_y (widget_allocation (surf d1 t)))
                then send (Set_position t (rect_x (widget_allocation (surf d1 t)))
                             (rect_y (widget_allocation (surf d1 t)))) d1
                else d1)"
  define d3 where "d3 = (if width (allocation (surf d1 t)) \<noteq> width (widget_allocation (surf d1 t)) \<or>
                   height (allocation (surf d1 t)) \<noteq> height (widget_allocation (surf d1 t))
                then window_schedule_redraw d2
                else d2)"
  have e: "surface_resize env t d = surf_update t (\<lambda>sf. sf\<lparr>allocation := widget_allocation sf\<rparr>) d3"
    unfolding surface_resize_def Let_def d3_def d2_def d1_def handled_def by (rule refl)
  have k1: "deferred_since d d1"
    by (rule deferred_since_same) (simp_all add: d1_def)
  have k2: "deferred_since d1 d2"
    unfolding d2_def by (simp add: deferred_since_refl deferred_since_send)
  have k3: "deferred_since d2 d3"
    unfolding d3_def by (simp add: deferred_since_refl deferred_since_schedule)
  have k4: "deferred_since d3 (surf_update t (\<lambda>sf. sf\<lparr>allocation := widget_allocation sf\<rparr>) d3)"
    by (rule deferred_since_surf_update)
  show ?thesis
    unfolding e using k1 k2 k3 k4 deferred_since_trans by blast
qed

lemma deferred_since_window_do_resize: "deferred_since d (window_do_resize env d)"
proof -
  define m where "m = main_surface (win d)"
  define d1 where "d1 = surf_update m (\<lambda>sf. sf\<lparr>widget_allocation := pending_allocation (win d)\<rparr>) d"
  define d2 where "d2 = surface_resize env m d1"
  define d3 where "d3 = fold (\<lambda>t d'. if t = m then d'
                             else surface_resize env t (surface_set_synchronized t d'))
                 (subsurface_list (win d2)) d2"
  have e: "window_do_resize env d =
      (if \<not> fullscreen (win d3) \<and> \<not> maximized (win d3)
         then d3\<lparr>win := (win d3)\<lparr>saved_allocation := pending_allocation (win d3)\<rparr>\<rparr>
         else d3)"
    unfolding window_do_resize_def Let_def d3_def d2_def d1_def m_def by (rule refl)
  have k1: "deferred_since d d1"
    unfolding d1_def by (rule deferred_since_surf_update)
  have k2: "deferred_since d1 d2"
    unfolding d2_def by (rule deferred_since_surface_resize)
  have k3: "deferred_since d2 d3"
    unfolding d3_def
  proof (rule fold_rel[where R = deferred_since
           and F = "\<lambda>t d'. if t = m then d'
                             else surface_resize env t (surface_set_synchronized t d')"])
    show "\<And>d :: toolkit. deferred_since d d" by (rule deferred_since_refl)
    show "\<And>a b c :: toolkit. deferred_since a b \<Longrightarrow> deferred_since b c \<Longrightarrow> deferred_since a c"
      by (rule deferred_since_trans)
    show "\<And>t d'. deferred_since d' (if t = m then d'
                             else surface_resize env t (surface_set_synchronized t d'))"
      using deferred_since_refl deferred_since_synchronized deferred_since_surface_resize
        deferred_since_trans by (metis (full_types))
  qed
  have k4: "deferred_since d3 (if \<not> fullscreen (win d3) \<and> \<not> maximized (win d3)
         then d3\<lparr>win := (win d3)\<lparr>saved_allocation := pending_allocation (win d3)\<rparr>\<rparr>
         else d3)"
    by (rule deferred_since_same) simp_all
  show ?thesis
    unfolding e using k1 k2 k3 k4 deferred_since_trans by blast
qed

lemma deferred_since_surface_redraw: "deferred_since d (snd (surface_redraw env t d))"
proof (rule surface_redraw_rel[where R = deferred_since and t = t and env = env])
  show "\<And>d :: toolkit. deferred_since d d" by (rule deferred_since_refl)
  show "\<And>a b c :: toolkit. deferred_since a b \<Longrightarrow> deferred_since b c \<Longrightarrow> deferred_since a c"
    by (rule deferred_since_trans)
  show "\<And>d cb. deferred_since d (send (Destroy_callback t cb) d)"
    by (rule deferred_since_send)
  show "\<And>d. deferred_since d (widget_get_cairo_surface env t d)"
    by (rule deferred_since_same) (simp_all add: widget_get_cairo_surface_def surf_update_def)
  show "\<And>d cb. deferred_since d (widget_redraw t
                  (surf_update t (\<lambda>sf. sf\<lparr>frame_cb := Some cb, redraw_needed := False\<rparr>)
                     (send (Frame t cb) (d\<lparr>next_callback := cb + 1\<rparr>))))"
    by (rule deferred_since_same) (simp_all add: widget_redraw_def send_def surf_update_def)
qed

lemma deferred_since_surface_flush: "deferred_since d (surface_flush t d)"
  by (rule deferred_since_same)
     (simp_all add: surface_flush_def surf_update_def send_def split: option.splits)

lemma deferred_since_window_flush: "deferred_since d (window_flush d)"
proof -
  have "deferred_since d (fold (\<lambda>t d'. if t = main_surface (win d) then d' else surface_flush t d')
                          (subsurface_list (win d)) d)"
  proof (rule fold_rel[where R = deferred_since
           and F = "\<lambda>t d'. if t = main_surface (win d) then d' else surface_flush t d'"])
    show "\<And>d :: toolkit. deferred_since d d" by (rule deferred_since_refl)
    show "\<And>a b c :: toolkit. deferred_since a b \<Longrightarrow> deferred_since b c \<Longrightarrow> deferred_since a c"
      by (rule deferred_since_trans)
    show "\<And>t d'. deferred_since d' (if t = main_surface (win d) then d' else surface_flush t d')"
      by (simp add: deferred_since_refl deferred_since_surface_flush)
  qed
  then show ?thesis
    unfolding window_flush_def Let_def
    using deferred_since_surface_flush deferred_since_trans by blast
qed

lemma only_defers_idle_redraw: "only_defers (idle_redraw env)"
  unfolding only_defers_iff
proof (intro allI impI)
  fix d d'
  assume a: "idle_redraw env d = Inr d'"
  define d0 where "d0 = d\<lparr>win := (win d)\<lparr>redraw_task_scheduled := False\<rparr>\<rparr>"
  define m where "m = main_surface (win d0)"
  define d1 where "d1 = (if resize_needed (win d0) then idle_resize env d0 else d0)"
  define d2 where "d2 = snd (surface_redraw env m d1)"
  define d3 where "d3 = (if fst (surface_redraw env m d1) < 0 then d2
                 else fold (\<lambda>s d'. if s = m then d' else snd (surface_redraw env s d'))
                        (subsurface_list (win d2)) d2)"
  define d4 where "d4 = d3\<lparr>win := (win d3)\<lparr>window_redraw_needed := False\<rparr>\<rparr>"
  define d5 where "d5 = window_flush d4"
  define d6 where "d6 = fold surface_set_synchronized_default (subsurface_list (win d5)) d5"
  have e: "idle_redraw env d =
     (if resize_needed (win d0) \<and> frame_cb (surf d0 m) \<noteq> None then Inr d0
      else if resize_needed (win d0) \<and> fst (surface_redraw env m d1) < 0 then undo_resize env d6
      else Inr d6)"
    by (simp only: idle_redraw_def Let_def case_prod_beta d6_def d5_def d4_def d3_def d2_def
          d1_def m_def d0_def)
  have k0: "deferred_since d d0"
    by (rule deferred_since_same) (simp_all add: d0_def)
  have k1: "deferred_since d0 d1"
  proof (cases "resize_needed (win d0)")
    case True
    have "deferred_since d0 (d0\<lparr>win := (win d0)\<lparr>resize_needed := False, window_redraw_needed := True\<rparr>\<rparr>)"
      by (rule deferred_since_same) simp_all
    then show ?thesis
      using True deferred_since_window_do_resize deferred_since_trans
      by (simp add: d1_def idle_resize_def) blast
  next
    case False
    then show ?thesis by (simp add: d1_def deferred_since_refl)
  qed
  have k2: "deferred_since d1 d2"
    unfolding d2_def by (rule deferred_since_surface_redraw)
  have k3: "deferred_since d2 d3"
  proof -
    have "deferred_since d2 (fold (\<lambda>s d'. if s = m then d' else snd (surface_redraw env s d'))
                        (subsurface_list (win d2)) d2)"
    proof (rule fold_rel[where R = deferred_since
             and F = "\<lambda>s d'. if s = m then d' else snd (surface_redraw env s d')"])
      show "\<And>d :: toolkit. deferred_since d d" by (rule deferred_since_refl)
      show "\<And>a b c :: toolkit. deferred_since a b \<Longrightarrow> deferred_since b c \<Longrightarrow> deferred_since a c"
        by (rule deferred_since_trans)
      show "\<And>t d'. deferred_since d' (if t = m then d' else snd (surface_redraw env t d'))"
        by (simp add: deferred_since_refl deferred_since_surface_redraw)
    qed
    then show ?thesis by (simp add: d3_def deferred_since_refl)
  qed
  have k4: "deferred_since d3 d4"
    by (rule deferred_since_same) (simp_all add: d4_def)
  have k5: "deferred_since d4 d5"
    unfolding d5_def by (rule deferred_since_window_flush)
  have k6: "deferred_since d5 d6"
    unfolding d6_def
  proof (rule fold_rel[where R = deferred_since and F = surface_set_synchronized_default])
    show "\<And>d :: toolkit. deferred_since d d" by (rule deferred_since_refl)
    show "\<And>a b c :: toolkit. deferred_since a b \<Longrightarrow> deferred_since b c \<Longrightarrow> deferred_since a c"
      by (rule deferred_since_trans)
    show "\<And>t d'. deferred_since d' (surface_set_synchronized_default t d')"
      by (rule deferred_since_synchronized_default)
  qed
  have k06: "deferred_since d d6"
    using k0 k1 k2 k3 k4 k5 k6 deferred_since_trans by blast
  have ku: "\<And>u. undo_resize env d6 = Inr u \<Longrightarrow> deferred_since d6 u"
  proof -
    fix u
    assume "undo_resize env d6 = Inr u"
    then have "u = window_do_resize env
             (d6\<lparr>win := (win d6)\<lparr>pending_allocation := (pending_allocation (win d6))
                \<lparr>width := width (server_allocation (surf d6 (main_surface (win d6)))),
                 height := height (server_allocation (surf d6 (main_surface (win d6))))\<rparr>\<rparr>\<rparr>)"
      by (simp add: undo_resize_result split: if_splits)
    moreover have "deferred_since d6
             (d6\<lparr>win := (win d6)\<lparr>pending_allocation := (pending_allocation (win d6))
                \<lparr>width := width (server_allocation (surf d6 (main_surface (win d6)))),
                 height := height (server_allocation (surf d6 (main_surface (win d6))))\<rparr>\<rparr>\<rparr>)"
      by (rule deferred_since_same) simp_all
    ultimately show "deferred_since d6 u"
      using deferred_since_window_do_resize deferred_since_trans by blast
  qed
  from a e have "d' = d0 \<or> d' = d6 \<or> undo_resize env d6 = Inr d'"
    by (auto split: if_splits)
  then show "deferred_since d d'"
    using k0 k06 ku deferred_since_trans by blast
qed

lemma only_defers_task_run: "only_defers (task_run env t ev)"
proof -
  have "task_run env t ev = idle_redraw env"
    by (rule ext) (simp add: task_run_def split: task.splits)
  then show ?thesis by (simp add: only_defers_idle_redraw)
qed

lemmas model_defs = display_defer_def display_run_to_wait_def task_run_def idle_redraw_def
  surface_redraw_def widget_get_cairo_surface_def widget_redraw_def window_flush_def
  surface_flush_def surface_set_synchronized_default_def surface_set_synchronized_def
  window_schedule_redraw_task_def widget_schedule_redraw_def window_schedule_redraw_def
  window_schedule_resize_def idle_resize_def window_do_resize_def surface_resize_def
  undo_resize_def frame_callback_def surf_def surf_update_def send_def

lemmas fixture_defs = plain_surface_def one_surface_window_def simple_env_def committed_once_def


text \<open>The first redraw of the one-surface window leaves it in \<open>committed_once\<close>.\<close>

lemma first_redraw_commits:
  "display_run_to_wait (task_run simple_env) Inr Flush_ok 10
     (widget_schedule_redraw 0 one_surface_window) = Continue committed_once"
  by (simp add: model_defs fixture_defs Let_def numeral_eq_Suc)

text \<open>
  Claim C1 as stated fails. The surface was committed, a redraw was requested again, and
  the frame callback is delivered by \<^verbatim>\<open>wl_display_dispatch_pending\<close>, after the inner
  loop: \<^verbatim>\<open>frame_callback\<close> defers the redraw task, and \<^verbatim>\<open>epoll_wait\<close> is called with
  that task in the list, deferred three times and run twice.
\<close>

theorem pending_listener_defers_across_wait:
  "(case display_run_to_wait (task_run simple_env) (frame_callback 0 0 17) Flush_ok 10
           (widget_schedule_redraw 0 committed_once) of
      Continue dw \<Rightarrow> deferred_list dw = [Redraw_task]
                   \<and> defer_log dw = [Redraw_task, Redraw_task, Redraw_task]
                   \<and> run_log dw = [Redraw_task, Redraw_task]
    | _ \<Rightarrow> False)"
  by (simp add: model_defs fixture_defs Let_def numeral_eq_Suc)

text \<open>
  A pass of \<^verbatim>\<open>idle_redraw\<close> over a throttled surface draws nothing on it and leaves its
  redraw request standing.
\<close>

lemma idle_redraw_holds_back:
  assumes "frame_cb (surf d s) \<noteq> None"
    and "cairo_surface (surf d s) = None"
    and "\<not> window_redraw_needed (win d)"
    and "\<not> (resize_needed (win d) \<and> frame_cb (surf d (main_surface (win d))) = None)"
  shows "case idle_redraw env d of
           Inl h \<Rightarrow> False
         | Inr d' \<Rightarrow>
             filter (draws s) (requests d') = filter (draws s) (requests d)
           \<and> frame_cb (surf d' s) = frame_cb (surf d s)
           \<and> redraw_needed (surf d' s) = redraw_needed (surf d s)"
proof (cases "resize_needed (win d)")
  case True
  with assms(4) have "frame_cb (surf d (main_surface (win d))) \<noteq> None" by simp
  with True have "idle_redraw env d = Inr (d\<lparr>win := (win d)\<lparr>redraw_task_scheduled := False\<rparr>\<rparr>)"
    by (simp add: idle_redraw_def Let_def surf_def)
  then show ?thesis by (simp add: surf_def)
next
  case False
  define m where "m = main_surface (win d)"
  define d0 where "d0 = d\<lparr>win := (win d)\<lparr>redraw_task_scheduled := False\<rparr>\<rparr>"
  define d2 where "d2 = snd (surface_redraw env m d0)"
  define d3 where "d3 = (if fst (surface_redraw env m d0) < 0 then d2
                 else fold (\<lambda>t d'. if t = m then d' else snd (surface_redraw env t d'))
                        (subsurface_list (win d2)) d2)"
  define d4 where "d4 = d3\<lparr>win := (win d3)\<lparr>window_redraw_needed := False\<rparr>\<rparr>"
  define d5 where "d5 = window_flush d4"
  define d6 where "d6 = fold surface_set_synchronized_default (subsurface_list (win d5)) d5"
  have e: "idle_redraw env d = Inr d6"
    unfolding idle_redraw_def Let_def case_prod_beta d6_def d5_def d4_def d3_def d2_def d0_def m_def
    using False by simp
  have t0: "throttled s d0" and u0: "undrawn s d d0"
    using assms(1-3) by (simp_all add: throttled_def undrawn_def d0_def surf_def)
  have h02: "held s d0 d2" unfolding d2_def by (rule held_surface_redraw)
  have h23: "held s d2 d3"
    unfolding d3_def using held_redraw_subsurfaces[of s d2 m env] by (simp add: held_refl)
  have h34: "held s d3 d4"
    by (simp add: held_def throttled_def undrawn_def d4_def surf_def)
  have h45: "held s d4 d5" unfolding d5_def by (rule held_window_flush)
  have h56: "held s d5 d6" unfolding d6_def by (rule held_sync_defaults)
  have "held s d0 d6" using h02 h23 h34 h45 h56 held_trans by blast
  then have "undrawn s d0 d6" using t0 by (simp add: held_def)
  then have "undrawn s d d6" using u0 undrawn_trans by blast
  then show ?thesis
    unfolding e by (simp add: undrawn_def)
qed

text \<open>
  The exception: when \<^verbatim>\<open>window->redraw_needed\<close> is set, \<^verbatim>\<open>surface_redraw\<close> destroys
  the pending callback and redraws (here for a surface that has its drawable or does not
  use cairo).
\<close>

lemma window_redraw_forces:
  assumes "frame_cb (surf d s) = Some cb" and "window_redraw_needed (win d)"
    and "\<not> use_cairo (surf d s) \<or> cairo_surface (surf d s) \<noteq> None"
  shows "fst (surface_redraw env s d) = 0
       \<and> requests (snd (surface_redraw env s d))
           = requests d @ [Destroy_callback s cb, Frame s (next_callback d), Paint s]
       \<and> frame_cb (surf (snd (surface_redraw env s d)) s) = Some (next_callback d)"
  using assms
  by (auto simp add: surface_redraw_def Let_def widget_redraw_def widget_get_cairo_surface_def
        send_def surf_update_def surf_def)

text \<open>
  Claim C2 as stated fails: a commit can be issued while the frame callback is pending
  and no redraw of the whole window is forced. The surface 0 was committed once, its
  frame callback 0 is pending, a redraw is requested again, and the application gets the
  drawable of the window with \<^verbatim>\<open>window_get_surface\<close> (or of the widget with
  \<^verbatim>\<open>widget_cairo_create\<close>), which does not look at the frame callback. The redraw task
  then holds back the redraw handler, and its \<^verbatim>\<open>window_flush\<close> commits the surface a
  second time, because the surface has a drawable: two commits, the callback of the
  first still pending.
\<close>

theorem acquired_drawable_committed_while_pending:
  "(case window_get_surface simple_env (widget_schedule_redraw 0 committed_once) of
      Inl h \<Rightarrow> False
    | Inr d \<Rightarrow>
        frame_cb (surf d 0) = Some 0
      \<and> \<not> window_redraw_needed (win d)
      \<and> \<not> resize_needed (win d)
      \<and> requests d = [Frame 0 0, Paint 0, Commit 0]
      \<and> widget_cairo_create simple_env 0 (widget_schedule_redraw 0 committed_once) = Inr d
      \<and> (case idle_redraw simple_env d of
            Inl h \<Rightarrow> False
          | Inr d' \<Rightarrow>
              requests d' = [Frame 0 0, Paint 0, Commit 0, Commit 0]
            \<and> frame_cb (surf d' 0) = Some 0))"
  by (simp add: model_defs window_get_surface_def widget_cairo_create_def fixture_defs Let_def)

text \<open>
  Claim C2, as the code has it. While the frame callback of a surface \<open>s\<close> is pending and
  no redraw of the whole window is forced (\<^verbatim>\<open>window->redraw_needed\<close> is not set),
  \<^verbatim>\<open>surface_redraw\<close> returns 0 and changes nothing. So a run of the redraw task, unless
  it is about to apply a resize (which sets \<^verbatim>\<open>window->redraw_needed\<close>), requests no
  frame callback for \<open>s\<close>, paints nothing on it and commits nothing for it, provided that
  \<open>s\<close> holds no drawable, that is, none was acquired for \<open>s\<close> outside the redraw since
  its last commit; the callback stays pending and the request for a redraw stays set, to
  be served when the callback arrives.
\<close>

theorem no_commit_while_frame_callback_pending:
  assumes "frame_cb (surf d s) \<noteq> None" and "\<not> window_redraw_needed (win d)"
  shows "surface_redraw env s d = (0, d)
       \<and> (cairo_surface (surf d s) = None
            \<and> \<not> (resize_needed (win d) \<and> frame_cb (surf d (main_surface (win d))) = None) \<longrightarrow>
          (case idle_redraw env d of
             Inl h \<Rightarrow> False
           | Inr d' \<Rightarrow>
               filter (draws s) (requests d') = filter (draws s) (requests d)
             \<and> frame_cb (surf d' s) = frame_cb (surf d s)
             \<and> redraw_needed (surf d' s) = redraw_needed (surf d s)))"
  using assms surface_redraw_throttled[of d s env] idle_redraw_holds_back[of d s env]
  by blast

text \<open>
  After a redraw request, the commit, and a second redraw request with the frame
  callback 0 still pending, the redraw task leaves the one commit as the only one; the
  request stays set.
\<close>

theorem no_commit_while_frame_callback_pending_witness:
  "frame_cb (surf (widget_schedule_redraw 0 committed_once) 0) = Some 0
   \<and> \<not> window_redraw_needed (win (widget_schedule_redraw 0 committed_once))
   \<and> surface_redraw simple_env 0 (widget_schedule_redraw 0 committed_once)
        = (0, widget_schedule_redraw 0 committed_once)
   \<and> (case idle_redraw simple_env (widget_schedule_redraw 0 committed_once) of
         Inl h \<Rightarrow> False
       | Inr d' \<Rightarrow>
           filter (draws 0) (requests d') = [Frame 0 0, Paint 0, Commit 0]
         \<and> frame_cb (surf d' 0) = Some 0
         \<and> redraw_needed (surf d' 0))"
proof -
  let ?d = "widget_schedule_redraw 0 committed_once"
  have h: "frame_cb (surf ?d 0) \<noteq> None" "\<not> window_redraw_needed (win ?d)"
    and v: "frame_cb (surf ?d 0) = Some 0" "cairo_surface (surf ?d 0) = None"
      "\<not> resize_needed (win ?d)" "redraw_needed (surf ?d 0)"
      "filter (draws 0) (requests ?d) = [Frame 0 0, Paint 0, Commit 0]"
    by (simp_all add: model_defs fixture_defs)
  note t = no_commit_while_frame_callback_pending [OF h, of simple_env]
  have "case idle_redraw simple_env ?d of
         Inl h \<Rightarrow> False
       | Inr d' \<Rightarrow>
           filter (draws 0) (requests d') = [Frame 0 0, Paint 0, Commit 0]
         \<and> frame_cb (surf d' 0) = Some 0
         \<and> redraw_needed (surf d' 0)"
    using t v by (cases "idle_redraw simple_env ?d") simp_all
  then show ?thesis using t v h by simp
qed

text \<open>
  When the frame callback then arrives, it defers the redraw task again and the next
  pass commits for the second time.
\<close>

lemma second_commit_after_frame_callback:
  "(case frame_callback 0 0 17 (widget_schedule_redraw 0 committed_once) of
      Inl h \<Rightarrow> False
    | Inr d \<Rightarrow>
        (case display_run_to_wait (task_run simple_env) Inr Flush_ok 10 d of
           Continue dw \<Rightarrow>
             requests dw = [Frame 0 0, Paint 0, Commit 0, Destroy_callback 0 0,
                            Frame 0 1, Paint 0, Commit 0]
         | _ \<Rightarrow> False))"
  by (simp add: model_defs fixture_defs Let_def numeral_eq_Suc)



end
